theory Spec2Isabelle
  imports Complex_Main "HOL-Library.Multiset" "HOL-Library.List_Lexorder"
    "HOL-Library.Char_ord"
begin

section \<open>QueryUP: the mentorship ledger of the single-page application\<close>

text \<open>
  The application keeps one snapshot \<open>{users, queries, sessions, notifications}\<close> in a React
  state hook, next to the hooks \<open>currentUserId\<close>, \<open>route\<close> and \<open>authMode\<close>. Every handler of
  the \<open>App\<close> component is embedded as a function from the snapshot it was rendered with to
  the snapshot React holds after the handler's queued updaters have run, in the order the
  handler queued them, together with the text passed to \<open>alert\<close> (if any).

  Numbers: the ratings, the XP and the counts the handlers store are integers (ratings come
  from the five rating buttons, XP is a sum of ratings times ten, counts are array lengths),
  so these fields are \<open>int\<close> or \<open>nat\<close>; the rating average is a quotient and is an exact
  rational. \<open>computeLevel\<close> is a function of its own and takes any number: its argument is a
  rational. \<open>null\<close> is \<open>None\<close>. Identifiers from \<open>Math.random\<close> and readings of the clock are
  arguments of the handlers that draw them, and so are the two things the handlers take
  from the runtime: its time zone and the collation of its locale. A \<open>Date\<close> is its time
  value, the number of milliseconds since the epoch.
\<close>

subsection \<open>Data model\<close>

record user =
  uid :: string
  email :: string
  password :: string
  name :: string
  year :: "string option"
  branch :: "string option"
  strongSubjects :: "string list"
  bio :: string
  avatar :: "string option"
  role :: string
  xp :: int
  level :: int
  ratingAvg :: rat
  ratingCount :: nat
  isBlocked :: bool

record query =
  qid :: string
  title :: string
  description :: string
  subjectTags :: "string list"
  preferredMentorType :: string
  preferredMode :: string
  timePreference :: string
  qstatus :: string
  qcreatedAt :: int
  askerId :: string

record session =
  sid :: string
  queryId :: string
  mentorId :: string
  menteeId :: string
  dateTime :: int
  mode :: string
  locationOrLink :: string
  sstatus :: string
  ratingForMentor :: "int option"
  ratingForMentee :: "int option"

record notification =
  nid :: string
  userId :: string
  message :: string
  read :: bool
  ncreatedAt :: int

record app =
  users :: "user list"
  queries :: "query list"
  sessions :: "session list"
  notifications :: "notification list"
  currentUserId :: "string option"
  route :: string
  authMode :: string

subsection \<open>Levels\<close>

text \<open>An entry of \<open>XP_LEVELS\<close>; the bound \<open>Infinity\<close> of the last tier is \<open>None\<close>.\<close>

record xp_level =
  lv_level :: int
  lv_min :: rat
  lv_max :: "rat option"

definition XP_LEVELS :: "xp_level list" where
  "XP_LEVELS =
    [\<lparr>lv_level = 1, lv_min = 0, lv_max = Some 99\<rparr>,
     \<lparr>lv_level = 2, lv_min = 100, lv_max = Some 299\<rparr>,
     \<lparr>lv_level = 3, lv_min = 300, lv_max = Some 699\<rparr>,
     \<lparr>lv_level = 4, lv_min = 700, lv_max = Some 1499\<rparr>,
     \<lparr>lv_level = 5, lv_min = 1500, lv_max = None\<rparr>]"

text \<open>\<open>xp <= l.max\<close>, where \<open>l.max\<close> may be \<open>Infinity\<close>.\<close>

fun le_max :: "rat \<Rightarrow> rat option \<Rightarrow> bool" where
  "le_max x None = True"
| "le_max x (Some m) = (x \<le> m)"

definition computeLevel :: "rat \<Rightarrow> int" where
  "computeLevel x =
    (case find (\<lambda>l. x \<ge> lv_min l \<and> le_max x (lv_max l)) XP_LEVELS of
       Some l \<Rightarrow> lv_level l
     | None \<Rightarrow> 1)"

subsection \<open>Statistics\<close>

definition currentUser :: "app \<Rightarrow> user option" where
  "currentUser a =
    (case currentUserId a of
       None \<Rightarrow> None
     | Some i \<Rightarrow> find (\<lambda>u. uid u = i) (users a))"

text \<open>The numeric value of a rating field inside an arithmetic expression (\<open>null\<close> counts 0).\<close>

fun num :: "int option \<Rightarrow> int" where
  "num None = 0"
| "num (Some r) = r"

definition sessionsAsMentor :: "string \<Rightarrow> session list \<Rightarrow> session list" where
  "sessionsAsMentor userId' ss =
    filter (\<lambda>s. mentorId s = userId' \<and> sstatus s = ''Completed'' \<and> ratingForMentor s \<noteq> None) ss"

definition updateUserStats :: "string \<Rightarrow> app \<Rightarrow> app" where
  "updateUserStats userId' prev =
    (let sam = sessionsAsMentor userId' (sessions prev);
         xp' = foldl (\<lambda>acc s. acc + num (ratingForMentor s) * 10) 0 sam;
         ratingSum = foldl (\<lambda>acc s. acc + num (ratingForMentor s)) 0 sam;
         ratingCount' = length sam;
         ratingAvg' = (if ratingCount' \<noteq> 0 then of_int ratingSum / of_nat ratingCount' else 0);
         level' = computeLevel (of_int xp')
     in prev\<lparr>users :=
          map (\<lambda>u. if uid u = userId'
                    then u\<lparr>xp := xp', ratingAvg := ratingAvg', ratingCount := ratingCount',
                           level := level'\<rparr>
                    else u) (users prev)\<rparr>)"

subsection \<open>Accounts\<close>

text \<open>\<open>s.endsWith(t)\<close>.\<close>

definition endsWith :: "string \<Rightarrow> string \<Rightarrow> bool" where
  "endsWith s t = (length t \<le> length s \<and> drop (length s - length t) s = t)"

text \<open>\<open>email.split("@")[0].replace(/\./g, " ")\<close>.\<close>

definition nameDefault :: "string \<Rightarrow> string" where
  "nameDefault em =
    map (\<lambda>c. if c = CHR ''.'' then CHR '' '' else c) (takeWhile (\<lambda>c. c \<noteq> CHR ''@'') em)"

definition newUser :: "app \<Rightarrow> string \<Rightarrow> string \<Rightarrow> string \<Rightarrow> user" where
  "newUser a em pw newId =
    \<lparr>uid = newId, email = em, password = pw, name = nameDefault em, year = None,
     branch = None, strongSubjects = [], bio = [], avatar = None,
     role = (if length (users a) = 0 then ''admin'' else ''student''),
     xp = 0, level = 1, ratingAvg = 0, ratingCount = 0, isBlocked = False\<rparr>"

text \<open>
  A handler returns the text it passed to \<open>alert\<close> (\<open>None\<close> when it raised no alert) and the
  next snapshot. \<open>newId\<close> is the value of \<open>id()\<close>.
\<close>

definition handleSignup :: "app \<Rightarrow> string \<Rightarrow> string \<Rightarrow> string \<Rightarrow> string option \<times> app" where
  "handleSignup a em pw newId =
    (if \<not> endsWith em ''@pccoepune.org''
     then (Some ''Only @pccoepune.org emails are allowed.'', a)
     else if list_ex (\<lambda>u. email u = em) (users a)
     then (Some ''User already exists. Please login.'', a\<lparr>authMode := ''login''\<rparr>)
     else (None, a\<lparr>users := users a @ [newUser a em pw newId],
                    currentUserId := Some newId, route := ''profile''\<rparr>))"

definition handleLogin :: "app \<Rightarrow> string \<Rightarrow> string \<Rightarrow> string option \<times> app" where
  "handleLogin a em pw =
    (case find (\<lambda>u. email u = em \<and> password u = pw) (users a) of
       None \<Rightarrow> (Some ''Invalid credentials.'', a)
     | Some u \<Rightarrow>
         if isBlocked u then (Some ''Your account is blocked. Contact admin.'', a)
         else if year u = None \<or> year u = Some [] \<or> strongSubjects u = []
         then (None, a\<lparr>currentUserId := Some (uid u), route := ''profile''\<rparr>)
         else (None, a\<lparr>currentUserId := Some (uid u), route := ''home''\<rparr>))"

definition handleLogout :: "app \<Rightarrow> app" where
  "handleLogout a = a\<lparr>currentUserId := None, route := ''landing''\<rparr>"

text \<open>The object \<open>ProfileSetup\<close> passes to \<open>updateProfile\<close>.\<close>

record profile_updates =
  pu_name :: string
  pu_year :: string
  pu_branch :: string
  pu_bio :: string
  pu_strongSubjects :: "string list"

definition updateProfile :: "app \<Rightarrow> profile_updates \<Rightarrow> app" where
  "updateProfile a updates =
    (case currentUser a of
       None \<Rightarrow> a
     | Some cu \<Rightarrow>
         a\<lparr>users :=
             map (\<lambda>u. if uid u = uid cu
                       then u\<lparr>name := pu_name updates, year := Some (pu_year updates),
                              branch := Some (pu_branch updates), bio := pu_bio updates,
                              strongSubjects := pu_strongSubjects updates\<rparr>
                       else u) (users a)\<rparr>)"

definition toggleBlockUser :: "app \<Rightarrow> string \<Rightarrow> app" where
  "toggleBlockUser a userId' =
    a\<lparr>users := map (\<lambda>u. if uid u = userId' then u\<lparr>isBlocked := \<not> isBlocked u\<rparr> else u) (users a)\<rparr>"

subsection \<open>Queries\<close>

text \<open>The object \<open>PostQueryPage\<close> passes to \<open>createQuery\<close>.\<close>

record query_data =
  qd_title :: string
  qd_description :: string
  qd_subjectTags :: "string list"
  qd_preferredMentorType :: string
  qd_preferredMode :: string
  qd_timePreference :: string

definition createQuery :: "app \<Rightarrow> query_data \<Rightarrow> string \<Rightarrow> int \<Rightarrow> app" where
  "createQuery a d newId tnow =
    (case currentUser a of
       None \<Rightarrow> a
     | Some cu \<Rightarrow>
         a\<lparr>queries :=
             \<lparr>qid = newId, title = qd_title d, description = qd_description d,
              subjectTags = qd_subjectTags d, preferredMentorType = qd_preferredMentorType d,
              preferredMode = qd_preferredMode d, timePreference = qd_timePreference d,
              qstatus = ''Open'', qcreatedAt = tnow, askerId = uid cu\<rparr> # queries a\<rparr>)"

text \<open>
  \<open>Date.prototype.getHours\<close> and \<open>setHours\<close> work on the local time of the runtime's time
  zone. The zone is the argument \<open>tza\<close>: \<open>tza t True\<close> is the offset of local time from UTC, in
  milliseconds, at the UTC time value \<open>t\<close>, and \<open>tza t False\<close> the offset at the local time value
  \<open>t\<close> (the language's \<open>LocalTZA(t, isUTC)\<close>). The functions below are those of the language
  definition, on time values within the range of \<open>Date\<close>, as clock readings are.
\<close>

definition LocalTime :: "(int \<Rightarrow> bool \<Rightarrow> int) \<Rightarrow> int \<Rightarrow> int" where
  "LocalTime tza t = t + tza t True"

definition UTC :: "(int \<Rightarrow> bool \<Rightarrow> int) \<Rightarrow> int \<Rightarrow> int" where
  "UTC tza t = t - tza t False"

definition Day :: "int \<Rightarrow> int" where
  "Day t = t div 86400000"

definition HourFromTime :: "int \<Rightarrow> int" where
  "HourFromTime t = (t div 3600000) mod 24"

definition MinFromTime :: "int \<Rightarrow> int" where
  "MinFromTime t = (t div 60000) mod 60"

definition SecFromTime :: "int \<Rightarrow> int" where
  "SecFromTime t = (t div 1000) mod 60"

definition msFromTime :: "int \<Rightarrow> int" where
  "msFromTime t = t mod 1000"

definition MakeTime :: "int \<Rightarrow> int \<Rightarrow> int \<Rightarrow> int \<Rightarrow> int" where
  "MakeTime hour m s ms = hour * 3600000 + m * 60000 + s * 1000 + ms"

definition MakeDate :: "int \<Rightarrow> int \<Rightarrow> int" where
  "MakeDate day time = day * 86400000 + time"

definition getHours :: "(int \<Rightarrow> bool \<Rightarrow> int) \<Rightarrow> int \<Rightarrow> int" where
  "getHours tza t = HourFromTime (LocalTime tza t)"

definition setHours :: "(int \<Rightarrow> bool \<Rightarrow> int) \<Rightarrow> int \<Rightarrow> int \<Rightarrow> int" where
  "setHours tza t hour =
    (let lt = LocalTime tza t;
         date = MakeDate (Day lt) (MakeTime hour (MinFromTime lt) (SecFromTime lt) (msFromTime lt))
     in UTC tza date)"

text \<open>
  \<open>dnow\<close> is the reading of \<open>new Date()\<close>, \<open>tnow\<close> that of \<open>Date.now()\<close>, \<open>newSid\<close> and \<open>newNid\<close>
  the two values of \<open>id()\<close>.
\<close>

definition newSession ::
  "(int \<Rightarrow> bool \<Rightarrow> int) \<Rightarrow> user \<Rightarrow> query \<Rightarrow> string \<Rightarrow> int \<Rightarrow> string \<Rightarrow> session" where
  "newSession tza cu q queryId' dnow newSid =
    \<lparr>sid = newSid, queryId = queryId', mentorId = uid cu, menteeId = askerId q,
     dateTime = setHours tza dnow (getHours tza dnow + 1),
     mode = (if preferredMode q = ''Offline'' then ''Offline'' else ''Online''),
     locationOrLink =
       (if preferredMode q = ''Offline'' then ''PCCOE Library''
        else ''https://meet.google.com/example''),
     sstatus = ''Confirmed'', ratingForMentor = None, ratingForMentee = None\<rparr>"

definition newNotification :: "user \<Rightarrow> query \<Rightarrow> string \<Rightarrow> int \<Rightarrow> notification" where
  "newNotification cu q newNid tnow =
    \<lparr>nid = newNid, userId = askerId q,
     message = ''Your query '' @ [CHR 0x22] @ title q @ [CHR 0x22] @ '' has been accepted by ''
               @ name cu @ ''.'',
     read = False, ncreatedAt = tnow\<rparr>"

definition acceptQuery ::
  "(int \<Rightarrow> bool \<Rightarrow> int) \<Rightarrow> app \<Rightarrow> string \<Rightarrow> int \<Rightarrow> string \<Rightarrow> string \<Rightarrow> int \<Rightarrow>
     string option \<times> app" where
  "acceptQuery tza a queryId' dnow newSid newNid tnow =
    (case currentUser a of
       None \<Rightarrow> (None, a)
     | Some cu \<Rightarrow>
        (case find (\<lambda>q. qid q = queryId') (queries a) of
           None \<Rightarrow> (None, a)
         | Some q \<Rightarrow>
            if askerId q = uid cu then (Some ''You cannot accept your own query.'', a)
            else
              (case find (\<lambda>s. queryId s = queryId') (sessions a) of
                 Some existing \<Rightarrow> (Some ''This query already has a mentor.'', a)
               | None \<Rightarrow>
                  (Some ''You are now the mentor for this query! Session auto-scheduled.'',
                   a\<lparr>sessions := sessions a @ [newSession tza cu q queryId' dnow newSid],
                     queries :=
                       map (\<lambda>qq. if qid qq = queryId' then qq\<lparr>qstatus := ''In Progress''\<rparr> else qq)
                         (queries a),
                     notifications := notifications a @ [newNotification cu q newNid tnow]\<rparr>))))"

subsection \<open>Sessions\<close>

definition markSessionComplete :: "app \<Rightarrow> string \<Rightarrow> string \<Rightarrow> bool \<Rightarrow> app" where
  "markSessionComplete a sessionId asUser didHappen =
    a\<lparr>sessions :=
        map (\<lambda>s. if sid s = sessionId
                  then s\<lparr>sstatus := (if didHappen then ''Completed'' else ''No-show'')\<rparr>
                  else s) (sessions a)\<rparr>"

text \<open>The first updater of \<open>rateSession\<close>.\<close>

definition nextSessions :: "session list \<Rightarrow> string \<Rightarrow> int \<Rightarrow> bool \<Rightarrow> session list" where
  "nextSessions ss sessionId ratingValue forMentor =
    map (\<lambda>s. if sid s \<noteq> sessionId then s
              else if forMentor then s\<lparr>ratingForMentor := Some ratingValue\<rparr>
              else s\<lparr>ratingForMentee := Some ratingValue\<rparr>) ss"

text \<open>
  \<open>rateSession\<close> queues the updater that writes the rating, looks the session up in the
  snapshot it was rendered with, and for a mentor rating calls \<open>updateUserStats\<close>, whose
  updater runs on the result of the first one.
\<close>

definition rateSession :: "app \<Rightarrow> string \<Rightarrow> int \<Rightarrow> bool \<Rightarrow> app" where
  "rateSession a sessionId ratingValue forMentor =
    (let a1 = a\<lparr>sessions := nextSessions (sessions a) sessionId ratingValue forMentor\<rparr>
     in case find (\<lambda>s. sid s = sessionId) (sessions a) of
          None \<Rightarrow> a1
        | Some s \<Rightarrow> if forMentor then updateUserStats (mentorId s) a1 else a1)"

subsection \<open>Leaderboard\<close>

text \<open>
  The comparator handed to \<open>sort\<close>. \<open>a.id.localeCompare(b.id)\<close> compares two identifiers in
  the collation of the runtime's locale; that collation is the argument \<open>localeCompare\<close>.
\<close>

definition leaderboard_cmp :: "(string \<Rightarrow> string \<Rightarrow> rat) \<Rightarrow> app \<Rightarrow> user \<Rightarrow> user \<Rightarrow> rat" where
  "leaderboard_cmp localeCompare st a b =
    (if xp b \<noteq> xp a then of_int (xp b - xp a)
     else if ratingAvg b \<noteq> ratingAvg a then ratingAvg b - ratingAvg a
     else let aSessions =
                length (filter (\<lambda>s. mentorId s = uid a \<and> sstatus s = ''Completed'') (sessions st));
              bSessions =
                length (filter (\<lambda>s. mentorId s = uid b \<and> sstatus s = ''Completed'') (sessions st))
          in if bSessions \<noteq> aSessions then of_int (int bSessions - int aSessions)
             else localeCompare (uid a) (uid b))"

text \<open>
  \<open>Array.prototype.sort\<close> with a comparator is a stable sort: an element goes before
  another when the comparator says so, and elements that compare equal keep their order.
  It is embedded as the stable insertion sort.
\<close>

fun insert_cmp :: "('a \<Rightarrow> 'a \<Rightarrow> rat) \<Rightarrow> 'a \<Rightarrow> 'a list \<Rightarrow> 'a list" where
  "insert_cmp c x [] = [x]"
| "insert_cmp c x (y # ys) = (if c x y \<le> 0 then x # y # ys else y # insert_cmp c x ys)"

definition sort_cmp :: "('a \<Rightarrow> 'a \<Rightarrow> rat) \<Rightarrow> 'a list \<Rightarrow> 'a list" where
  "sort_cmp c xs = foldr (insert_cmp c) xs []"

definition leaderboard :: "(string \<Rightarrow> string \<Rightarrow> rat) \<Rightarrow> app \<Rightarrow> user list" where
  "leaderboard localeCompare a = sort_cmp (leaderboard_cmp localeCompare a) (users a)"

text \<open>
  What the language asks of \<open>localeCompare\<close>: a total ordering of the strings. \<open>lc x y\<close> is
  negative when \<open>x\<close> goes before \<open>y\<close>, positive when it goes after, and going before or
  level is transitive.
\<close>

definition total_ordering :: "(string \<Rightarrow> string \<Rightarrow> rat) \<Rightarrow> bool" where
  "total_ordering lc \<longleftrightarrow>
     (\<forall>x y. (lc x y < 0) = (0 < lc y x)) \<and>
     (\<forall>x y z. lc x y \<le> 0 \<and> lc y z \<le> 0 \<longrightarrow> lc x z \<le> 0)"

text \<open>
  The order of the leaderboard in the words of its description: XP descending, then rating
  average descending, then the number of the user's sessions as mentor with status Completed
  descending, then identifier ascending, in the collation \<open>lc\<close>. \<open>ranks_before lc st u v\<close>:
  \<open>u\<close> is not placed after \<open>v\<close>.
\<close>

definition ranks_before :: "(string \<Rightarrow> string \<Rightarrow> rat) \<Rightarrow> app \<Rightarrow> user \<Rightarrow> user \<Rightarrow> bool" where
  "ranks_before lc st u v \<longleftrightarrow>
     xp v < xp u \<or>
     (xp u = xp v \<and>
       (ratingAvg v < ratingAvg u \<or>
        (ratingAvg u = ratingAvg v \<and>
          (length (filter (\<lambda>s. mentorId s = uid v \<and> sstatus s = ''Completed'') (sessions st))
             < length (filter (\<lambda>s. mentorId s = uid u \<and> sstatus s = ''Completed'') (sessions st)) \<or>
           (length (filter (\<lambda>s. mentorId s = uid u \<and> sstatus s = ''Completed'') (sessions st))
              = length (filter (\<lambda>s. mentorId s = uid v \<and> sstatus s = ''Completed'') (sessions st)) \<and>
            lc (uid u) (uid v) \<le> 0)))))"

text \<open>
  Two collations. Both compare keys: the first the string itself, character by character;
  the second, the Czech one on strings over \<open>0-9a-z\<close>, the string read with \<open>ch\<close> as one letter
  that stands after \<open>h\<close>.
\<close>

definition compare_by :: "(string \<Rightarrow> 'k::linorder) \<Rightarrow> string \<Rightarrow> string \<Rightarrow> rat" where
  "compare_by key x y = (if key x < key y then - 1 else if key x = key y then 0 else 1)"

fun cs_key :: "string \<Rightarrow> nat list" where
  "cs_key (c # h # cs) =
     (if c = CHR ''c'' \<and> h = CHR ''h'' then (2 * of_char CHR ''h'' + 1) # cs_key cs
      else 2 * of_char c # cs_key (h # cs))"
| "cs_key [c] = [2 * of_char c]"
| "cs_key [] = []"

subsection \<open>Example snapshots\<close>

text \<open>
  Three accounts, one query of the first account, and the snapshots before and after the
  second account accepts it.
\<close>

definition alice :: user where
  "alice = \<lparr>uid = ''a1'', email = ''alice@pccoepune.org'', password = ''pw1'', name = ''alice'',
     year = None, branch = None, strongSubjects = [], bio = [], avatar = None,
     role = ''admin'', xp = 0, level = 1, ratingAvg = 0, ratingCount = 0, isBlocked = False\<rparr>"

definition bob :: user where
  "bob = \<lparr>uid = ''b2'', email = ''bob@pccoepune.org'', password = ''pw2'', name = ''bob'',
     year = None, branch = None, strongSubjects = [], bio = [], avatar = None,
     role = ''student'', xp = 0, level = 1, ratingAvg = 0, ratingCount = 0, isBlocked = False\<rparr>"

definition carol :: user where
  "carol = \<lparr>uid = ''c3'', email = ''carol@pccoepune.org'', password = ''pw3'', name = ''carol'',
     year = None, branch = None, strongSubjects = [], bio = [], avatar = None,
     role = ''student'', xp = 0, level = 1, ratingAvg = 0, ratingCount = 0, isBlocked = False\<rparr>"

definition heaps :: query where
  "heaps = \<lparr>qid = ''q1'', title = ''Heaps'', description = ''How does heapify work?'',
     subjectTags = [''DSA''], preferredMentorType = ''Any'', preferredMode = ''Either'',
     timePreference = [], qstatus = ''Open'', qcreatedAt = 1000, askerId = ''a1''\<rparr>"

definition heaps_session :: session where
  "heaps_session = \<lparr>sid = ''s1'', queryId = ''q1'', mentorId = ''b2'', menteeId = ''a1'',
     dateTime = 3605000, mode = ''Online'', locationOrLink = ''https://meet.google.com/example'',
     sstatus = ''Confirmed'', ratingForMentor = None, ratingForMentee = None\<rparr>"

definition heaps_notification :: notification where
  "heaps_notification = \<lparr>nid = ''n1'', userId = ''a1'',
     message = ''Your query '' @ [CHR 0x22] @ ''Heaps'' @ [CHR 0x22] @ '' has been accepted by bob.'',
     read = False, ncreatedAt = 5001\<rparr>"

definition app_open :: app where
  "app_open = \<lparr>users = [alice, bob, carol], queries = [heaps], sessions = [],
     notifications = [], currentUserId = Some ''b2'', route = ''home'', authMode = ''signup''\<rparr>"

definition app_accepted :: app where
  "app_accepted = \<lparr>users = [alice, bob, carol], queries = [heaps\<lparr>qstatus := ''In Progress''\<rparr>],
     sessions = [heaps_session], notifications = [heaps_notification],
     currentUserId = Some ''b2'', route = ''home'', authMode = ''signup''\<rparr>"

text \<open>The snapshot the application starts with when nothing is stored.\<close>

definition initial_app :: app where
  "initial_app = \<lparr>users = [], queries = [], sessions = [], notifications = [],
     currentUserId = None, route = ''landing'', authMode = ''signup''\<rparr>"

text \<open>
  Two time zones: UTC, and the Eastern zone of the United States around the end of its
  daylight saving time on 3 November 2024 (06:00 UTC, when the local clock goes from 02:00
  back to 01:00 and the offset from -4 to -5 hours; a local time that occurs twice is read
  with the offset before the change).
\<close>

definition zone_utc :: "int \<Rightarrow> bool \<Rightarrow> int" where
  "zone_utc t isUTC = 0"


text \<open>The accepted session once it is marked as having happened.\<close>

definition app_completed :: app where
  "app_completed = \<lparr>users = [alice, bob, carol], queries = [heaps\<lparr>qstatus := ''In Progress''\<rparr>],
     sessions = [heaps_session\<lparr>sstatus := ''Completed''\<rparr>], notifications = [heaps_notification],
     currentUserId = Some ''a1'', route = ''sessions'', authMode = ''signup''\<rparr>"

text \<open>A longer history of sessions, most of them mentored by the second account.\<close>

definition session_of ::
  "string \<Rightarrow> string \<Rightarrow> string \<Rightarrow> string \<Rightarrow> string \<Rightarrow> int option \<Rightarrow> session" where
  "session_of i q m e st r = \<lparr>sid = i, queryId = q, mentorId = m, menteeId = e,
     dateTime = 3605000, mode = ''Online'', locationOrLink = ''https://meet.google.com/example'',
     sstatus = st, ratingForMentor = r, ratingForMentee = None\<rparr>"

definition app_history :: app where
  "app_history = \<lparr>users = [alice, bob, carol], queries = [],
     sessions = [session_of ''s1'' ''q1'' ''b2'' ''a1'' ''Completed'' (Some 5),
                 session_of ''s2'' ''q2'' ''b2'' ''c3'' ''Completed'' (Some 4),
                 session_of ''s3'' ''q3'' ''b2'' ''a1'' ''No-show'' None,
                 session_of ''s4'' ''q4'' ''b2'' ''a1'' ''Completed'' None,
                 session_of ''s5'' ''q5'' ''c3'' ''a1'' ''Completed'' (Some 5),
                 session_of ''s6'' ''q6'' ''b2'' ''c3'' ''Completed'' (Some 3)],
     notifications = [], currentUserId = Some ''a1'', route = ''sessions'', authMode = ''signup''\<rparr>"

text \<open>
  A fourth account, and the users of the history in another order. The fourth account has
  mentored two sessions, neither of them Completed.
\<close>

definition dave :: user where
  "dave = \<lparr>uid = ''d4'', email = ''dave@pccoepune.org'', password = ''pw4'', name = ''dave'',
     year = None, branch = None, strongSubjects = [], bio = [], avatar = None,
     role = ''student'', xp = 0, level = 1, ratingAvg = 0, ratingCount = 0, isBlocked = False\<rparr>"

definition app_ranked :: app where
  "app_ranked = app_history\<lparr>
     users := [dave, carol, alice, bob\<lparr>xp := 120, ratingAvg := 4, ratingCount := 3, level := 2\<rparr>],
     sessions := sessions app_history @
       [session_of ''s7'' ''q7'' ''d4'' ''a1'' ''No-show'' None,
        session_of ''s8'' ''q8'' ''d4'' ''c3'' ''Confirmed'' None]\<rparr>"

text \<open>Two accounts with nothing but their identifiers to tell them apart.\<close>

definition user_ch1 :: user where
  "user_ch1 = \<lparr>uid = ''ch1'', email = ''eva@pccoepune.org'', password = ''pw5'', name = ''eva'',
     year = None, branch = None, strongSubjects = [], bio = [], avatar = None,
     role = ''admin'', xp = 0, level = 1, ratingAvg = 0, ratingCount = 0, isBlocked = False\<rparr>"

definition user_d2 :: user where
  "user_d2 = \<lparr>uid = ''d2'', email = ''filip@pccoepune.org'', password = ''pw6'', name = ''filip'',
     year = None, branch = None, strongSubjects = [], bio = [], avatar = None,
     role = ''student'', xp = 0, level = 1, ratingAvg = 0, ratingCount = 0, isBlocked = False\<rparr>"

definition app_pair :: app where
  "app_pair = initial_app\<lparr>users := [user_ch1, user_d2]\<rparr>"

text \<open>The form data of the example query.\<close>

definition heaps_data :: query_data where
  "heaps_data = \<lparr>qd_title = ''Heaps'', qd_description = ''How does heapify work?'',
     qd_subjectTags = [''DSA''], qd_preferredMentorType = ''Any'', qd_preferredMode = ''Either'',
     qd_timePreference = []\<rparr>"

subsection \<open>The controls of the user interface\<close>

text \<open>
  \<open>ui_step a a'\<close>: one event of the rendered page takes the snapshot \<open>a\<close> to \<open>a'\<close>. Each rule is
  a control of the page calling its handler, under the condition with which the component
  renders that control:
  \<^item> the sign-up and login form exists while nobody is logged in, every other control while
    somebody is;
  \<^item> the home feed offers \<open>Accept\<close> on the Open queries of other users;
  \<^item> a session card is shown to the mentor (role \<open>mentor\<close>) and to the mentee (role \<open>mentee\<close>) of
    the session; it offers the two outcome buttons when the session is neither a Confirmed
    session in the future nor Completed, and the rating buttons 1 to 5 when the session is
    Completed and the rating this role gives is still unset; the mentee's rating is the one
    for the mentor;
  \<^item> the admin dashboard offers the block button on every user.
  Which page is shown (\<open>route\<close>) and what the forms check before they submit are left out:
  the relation admits every route and every form content, so it has at least the steps of
  the page. A value of \<open>id()\<close> is one not yet in use in its collection, the time zone is any.
  \<open>reload\<close> is the page loaded again on the stored snapshot.
\<close>

inductive ui_step :: "app \<Rightarrow> app \<Rightarrow> bool" where
  reload: "ui_step a (a\<lparr>currentUserId := None, route := ''landing'', authMode := ''signup''\<rparr>)"
| navigate: "ui_step a (a\<lparr>route := r, authMode := m\<rparr>)"
| signup: "currentUser a = None \<Longrightarrow> newId \<notin> uid ` set (users a) \<Longrightarrow>
     ui_step a (snd (handleSignup a em pw newId))"
| login: "currentUser a = None \<Longrightarrow> ui_step a (snd (handleLogin a em pw))"
| logout: "currentUser a \<noteq> None \<Longrightarrow> ui_step a (handleLogout a)"
| profile: "currentUser a \<noteq> None \<Longrightarrow> ui_step a (updateProfile a updates)"
| post: "currentUser a \<noteq> None \<Longrightarrow> newId \<notin> qid ` set (queries a) \<Longrightarrow>
     ui_step a (createQuery a d newId tnow)"
| accept: "currentUser a = Some cu \<Longrightarrow> q \<in> set (queries a) \<Longrightarrow> askerId q \<noteq> uid cu \<Longrightarrow>
     qstatus q = ''Open'' \<Longrightarrow> newSid \<notin> sid ` set (sessions a) \<Longrightarrow>
     newNid \<notin> nid ` set (notifications a) \<Longrightarrow>
     ui_step a (snd (acceptQuery tza a (qid q) dnow newSid newNid tnow))"
| mark: "currentUser a = Some cu \<Longrightarrow> s \<in> set (sessions a) \<Longrightarrow>
     (asUser = ''mentor'' \<and> mentorId s = uid cu) \<or> (asUser = ''mentee'' \<and> menteeId s = uid cu) \<Longrightarrow>
     \<not> (tnow < dateTime s \<and> sstatus s = ''Confirmed'') \<Longrightarrow> sstatus s \<noteq> ''Completed'' \<Longrightarrow>
     ui_step a (markSessionComplete a (sid s) asUser didHappen)"
| rate: "currentUser a = Some cu \<Longrightarrow> s \<in> set (sessions a) \<Longrightarrow>
     (asUser = ''mentor'' \<and> mentorId s = uid cu \<and> ratingForMentee s = None) \<or>
     (asUser = ''mentee'' \<and> menteeId s = uid cu \<and> ratingForMentor s = None) \<Longrightarrow>
     sstatus s = ''Completed'' \<Longrightarrow> r \<in> set [1, 2, 3, 4, 5] \<Longrightarrow>
     ui_step a (rateSession a (sid s) r (asUser = ''mentee''))"
| block: "currentUser a = Some cu \<Longrightarrow> role cu = ''admin'' \<Longrightarrow> u \<in> set (users a) \<Longrightarrow>
     ui_step a (toggleBlockUser a (uid u))"

text \<open>The snapshots the page can get to from the empty one.\<close>

inductive reachable :: "app \<Rightarrow> bool" where
  start: "reachable initial_app"
| step: "reachable a \<Longrightarrow> ui_step a a' \<Longrightarrow> reachable a'"

text \<open>
  A session's ratings are valid when each is unset, or is between 1 and 5 on a Completed
  session.
\<close>

definition ratings_valid :: "session \<Rightarrow> bool" where
  "ratings_valid s \<longleftrightarrow>
     (case ratingForMentor s of None \<Rightarrow> True
      | Some r \<Rightarrow> 1 \<le> r \<and> r \<le> 5 \<and> sstatus s = ''Completed'') \<and>
     (case ratingForMentee s of None \<Rightarrow> True
      | Some r \<Rightarrow> 1 \<le> r \<and> r \<le> 5 \<and> sstatus s = ''Completed'')"

definition sessions_ok :: "app \<Rightarrow> bool" where
  "sessions_ok a \<longleftrightarrow> distinct (map sid (sessions a)) \<and> list_all ratings_valid (sessions a)"

text \<open>
  \<open>keeps_ratings ss ss'\<close>: the sessions \<open>ss\<close> are still there in \<open>ss'\<close>, in their places, and every
  rating that was set in \<open>ss\<close> has the same value in \<open>ss'\<close>.
\<close>

fun keeps_ratings :: "session list \<Rightarrow> session list \<Rightarrow> bool" where
  "keeps_ratings [] ss' = True"
| "keeps_ratings (s # ss) [] = False"
| "keeps_ratings (s # ss) (s' # ss') =
     (sid s' = sid s \<and>
      (ratingForMentor s \<noteq> None \<longrightarrow> ratingForMentor s' = ratingForMentor s) \<and>
      (ratingForMentee s \<noteq> None \<longrightarrow> ratingForMentee s' = ratingForMentee s) \<and>
      keeps_ratings ss ss')"

section \<open>Properties\<close>

subsection \<open>Levels\<close>

lemma computeLevel_cases:
  "computeLevel x =
    (if 0 \<le> x \<and> x \<le> 99 then 1 else if 100 \<le> x \<and> x \<le> 299 then 2
     else if 300 \<le> x \<and> x \<le> 699 then 3 else if 700 \<le> x \<and> x \<le> 1499 then 4
     else if 1500 \<le> x then 5 else 1)"
  by (simp add: computeLevel_def XP_LEVELS_def)

lemma computeLevel_tiers:
  "computeLevel (of_int n) =
    (if n < 0 then 1 else if n \<le> 99 then 1 else if n \<le> 299 then 2
     else if n \<le> 699 then 3 else if n \<le> 1499 then 4 else 5)"
  by (simp add: computeLevel_cases)

text \<open>
  Claim C4, as stated, at the input where it fails: between two tiers no entry of the table
  matches and the level falls to the default 1, so the level at 299.5 is below the level
  at 299.
\<close>

theorem computeLevel_gap_counterexample:
  "(0::rat) \<le> 299 \<and> (299::rat) \<le> 599 / 2 \<and> computeLevel 299 = 2 \<and> computeLevel (599 / 2) = 1 \<and>
   \<not> computeLevel 299 \<le> computeLevel (599 / 2)"
  by (simp add: computeLevel_cases)

text \<open>
  Claim C4, amended. For every XP value the level is between 1 and 5. On the integers from 0
  on, which are the XP values the application computes, the level does not decrease when
  XP grows. The levels at 0, 99, 100, 1499 and 1500 are 1, 1, 2, 4 and 5.
\<close>

theorem computeLevel_range_mono:
  "1 \<le> computeLevel x \<and> computeLevel x \<le> 5 \<and>
   (0 \<le> m \<and> m \<le> n \<longrightarrow> computeLevel (of_int m) \<le> computeLevel (of_int n)) \<and>
   computeLevel 0 = 1 \<and> computeLevel 99 = 1 \<and> computeLevel 100 = 2 \<and>
   computeLevel 1499 = 4 \<and> computeLevel 1500 = 5"
  by (simp add: computeLevel_tiers) (simp add: computeLevel_cases)

theorem computeLevel_range_mono_witness:
  "(0::int) \<le> 250 \<and> (250::int) \<le> 800 \<and> computeLevel 250 = 2 \<and> computeLevel 800 = 4 \<and>
   computeLevel 250 \<le> computeLevel 800 \<and> computeLevel (599 / 2) = 1"
  using computeLevel_range_mono [of "599 / 2" 250 800] by (simp add: computeLevel_cases)

subsection \<open>Lookups by identifier\<close>

lemma find_distinct_key:
  "x \<in> set xs \<Longrightarrow> distinct (map f xs) \<Longrightarrow> find (\<lambda>y. f y = f x) xs = Some x"
  by (induction xs) (auto simp: image_iff)

lemma map_distinct_key:
  "x \<in> set xs \<Longrightarrow> distinct (map f xs) \<Longrightarrow>
   map (\<lambda>y. if f y = f x then g y else y) xs = map (\<lambda>y. if y = x then g x else y) xs"
  by (rule map_cong) (auto simp: distinct_map inj_on_def)

lemma currentUser_app_open: "currentUser app_open = Some bob"
  by (simp add: currentUser_def app_open_def alice_def bob_def)

lemma currentUser_app_accepted:
  "currentUser (app_accepted\<lparr>currentUserId := Some ''a1''\<rparr>) = Some alice"
  "currentUser (app_accepted\<lparr>currentUserId := Some ''c3''\<rparr>) = Some carol"
  by (simp_all add: currentUser_def app_accepted_def alice_def bob_def carol_def)

subsection \<open>One hour later on the local clock\<close>

lemma split_time:
  "MakeDate (Day t) (MakeTime (HourFromTime t) (MinFromTime t) (SecFromTime t) (msFromTime t)) = t"
proof -
  have a: "t div 60000 = (t div 1000) div 60"
    using zdiv_zmult2_eq [of 1000 t 60] by simp
  have b: "t div 3600000 = (t div 60000) div 60"
    using zdiv_zmult2_eq [of 60000 t 60] by simp
  have c: "t div 86400000 = (t div 3600000) div 24"
    using zdiv_zmult2_eq [of 3600000 t 24] by simp
  have 1: "t = 1000 * (t div 1000) + t mod 1000" by simp
  have 2: "t div 1000 = 60 * (t div 60000) + (t div 1000) mod 60" unfolding a by simp
  have 3: "t div 60000 = 60 * (t div 3600000) + (t div 60000) mod 60" unfolding b by simp
  have 4: "t div 3600000 = 24 * (t div 86400000) + (t div 3600000) mod 24" unfolding c by simp
  show ?thesis
    unfolding MakeDate_def MakeTime_def Day_def HourFromTime_def MinFromTime_def
      SecFromTime_def msFromTime_def
    using 1 2 3 4 by linarith
qed

lemma next_hour:
  "MakeDate (Day t) (MakeTime (HourFromTime t + 1) (MinFromTime t) (SecFromTime t) (msFromTime t))
     = t + 3600000"
proof -
  have "MakeDate (Day t) (MakeTime (HourFromTime t + 1) (MinFromTime t) (SecFromTime t) (msFromTime t))
      = MakeDate (Day t) (MakeTime (HourFromTime t) (MinFromTime t) (SecFromTime t) (msFromTime t))
        + 3600000"
    by (simp add: MakeDate_def MakeTime_def algebra_simps)
  then show ?thesis by (simp add: split_time)
qed

lemma setHours_next_hour:
  "setHours tza t (getHours tza t + 1) =
     t + tza t True + 3600000 - tza (t + tza t True + 3600000) False"
  by (simp add: setHours_def getHours_def Let_def next_hour) (simp add: UTC_def LocalTime_def)

subsection \<open>Accepting a query\<close>




text \<open>
  Claim C3, as stated, at the input where it fails: the query already has a session and the
  user who accepts is its asker. The alert is the one of the self-accept check, which comes
  first.
\<close>

theorem acceptQuery_existing_session_counterexample:
  "currentUser (app_accepted\<lparr>currentUserId := Some ''a1''\<rparr>) = Some alice \<and>
   queryId heaps_session = ''q1'' \<and>
   sessions (app_accepted\<lparr>currentUserId := Some ''a1''\<rparr>) = [heaps_session] \<and>
   map qid (queries (app_accepted\<lparr>currentUserId := Some ''a1''\<rparr>)) = [''q1''] \<and>
   fst (acceptQuery zone_utc (app_accepted\<lparr>currentUserId := Some ''a1''\<rparr>) ''q1'' 9000 ''s2'' ''n2'' 9001)
     = Some ''You cannot accept your own query.'' \<and>
   fst (acceptQuery zone_utc (app_accepted\<lparr>currentUserId := Some ''a1''\<rparr>) ''q1'' 9000 ''s2'' ''n2'' 9001)
     \<noteq> Some ''This query already has a mentor.''"
  by (simp add: acceptQuery_def currentUser_app_accepted)
    (simp add: app_accepted_def heaps_def heaps_session_def alice_def)

text \<open>
  Claim C3, amended. In a snapshot whose queries have distinct identifiers, when a session
  already refers to the query \<open>q\<close> of the collection, \<open>acceptQuery\<close> by a current user other than
  the asker of \<open>q\<close> alerts that the query already has a mentor, \<open>acceptQuery\<close> by the asker alerts
  that one cannot accept one's own query, and in both cases the snapshot returned is the one
  given: no query, session or notification is added or changed.
\<close>

theorem acceptQuery_existing_session:
  assumes "currentUser a = Some m" and "q \<in> set (queries a)"
    and "distinct (map qid (queries a))"
    and "s \<in> set (sessions a)" and "queryId s = qid q"
  shows "(askerId q \<noteq> uid m \<longrightarrow>
            acceptQuery tza a (qid q) dnow newSid newNid tnow =
              (Some ''This query already has a mentor.'', a)) \<and>
         (askerId q = uid m \<longrightarrow>
            acceptQuery tza a (qid q) dnow newSid newNid tnow =
              (Some ''You cannot accept your own query.'', a))"
proof -
  have q: "find (\<lambda>x. qid x = qid q) (queries a) = Some q"
    using assms(2,3) by (rule find_distinct_key)
  have "find (\<lambda>x. queryId x = qid q) (sessions a) \<noteq> None"
    using assms(4,5) by (auto simp: find_None_iff)
  then obtain e where "find (\<lambda>x. queryId x = qid q) (sessions a) = Some e"
    by blast
  with q assms(1) show ?thesis
    by (simp add: acceptQuery_def)
qed

theorem acceptQuery_existing_session_witness:
  "currentUser (app_accepted\<lparr>currentUserId := Some ''c3''\<rparr>) = Some carol \<and>
   heaps\<lparr>qstatus := ''In Progress''\<rparr> \<in> set (queries (app_accepted\<lparr>currentUserId := Some ''c3''\<rparr>)) \<and>
   distinct (map qid (queries (app_accepted\<lparr>currentUserId := Some ''c3''\<rparr>))) \<and>
   heaps_session \<in> set (sessions (app_accepted\<lparr>currentUserId := Some ''c3''\<rparr>)) \<and>
   queryId heaps_session = qid (heaps\<lparr>qstatus := ''In Progress''\<rparr>) \<and>
   askerId (heaps\<lparr>qstatus := ''In Progress''\<rparr>) \<noteq> uid carol \<and>
   acceptQuery zone_utc (app_accepted\<lparr>currentUserId := Some ''c3''\<rparr>) ''q1'' 9000 ''s2'' ''n2'' 9001 =
     (Some ''This query already has a mentor.'', app_accepted\<lparr>currentUserId := Some ''c3''\<rparr>) \<and>
   currentUser (app_accepted\<lparr>currentUserId := Some ''a1''\<rparr>) = Some alice \<and>
   askerId (heaps\<lparr>qstatus := ''In Progress''\<rparr>) = uid alice \<and>
   acceptQuery zone_utc (app_accepted\<lparr>currentUserId := Some ''a1''\<rparr>) ''q1'' 9000 ''s2'' ''n2'' 9001 =
     (Some ''You cannot accept your own query.'', app_accepted\<lparr>currentUserId := Some ''a1''\<rparr>)"
proof -
  let ?a = "app_accepted\<lparr>currentUserId := Some ''c3''\<rparr>"
  let ?q = "heaps\<lparr>qstatus := ''In Progress''\<rparr>"
  have h1: "currentUser ?a = Some carol" by (rule currentUser_app_accepted)
  have h2: "?q \<in> set (queries ?a)" by (simp add: app_accepted_def)
  have h3: "distinct (map qid (queries ?a))" by (simp add: app_accepted_def)
  have h4: "heaps_session \<in> set (sessions ?a)" by (simp add: app_accepted_def)
  have h5: "queryId heaps_session = qid ?q" by (simp add: heaps_session_def heaps_def)
  have h6: "askerId ?q \<noteq> uid carol" by (simp add: heaps_def carol_def)
  have h7: "qid ?q = ''q1''" by (simp add: heaps_def)
  let ?b = "app_accepted\<lparr>currentUserId := Some ''a1''\<rparr>"
  have k1: "currentUser ?b = Some alice" by (rule currentUser_app_accepted)
  have k2: "?q \<in> set (queries ?b)" by (simp add: app_accepted_def)
  have k3: "distinct (map qid (queries ?b))" by (simp add: app_accepted_def)
  have k4: "heaps_session \<in> set (sessions ?b)" by (simp add: app_accepted_def)
  have k6: "askerId ?q = uid alice" by (simp add: heaps_def alice_def)
  show ?thesis
    using h1 h2 h3 h4 h5 h6 k1 k6
      acceptQuery_existing_session [OF h1 h2 h3 h4 h5, of zone_utc 9000 "''s2''" "''n2''" 9001]
      acceptQuery_existing_session [OF k1 k2 k3 k4 h5, of zone_utc 9000 "''s2''" "''n2''" 9001]
    unfolding h7 by simp
qed

text \<open>
  Claim C9. In a snapshot whose queries have distinct identifiers, \<open>acceptQuery\<close> on a query
  \<open>q\<close> of the collection by the user who asked it alerts that one cannot accept one's own
  query and returns the snapshot it was given: no session is produced.
\<close>

theorem acceptQuery_self:
  assumes "currentUser a = Some m" and "q \<in> set (queries a)"
    and "distinct (map qid (queries a))" and "askerId q = uid m"
  shows "acceptQuery tza a (qid q) dnow newSid newNid tnow =
           (Some ''You cannot accept your own query.'', a)"
proof -
  have "find (\<lambda>x. qid x = qid q) (queries a) = Some q"
    using assms(2,3) by (rule find_distinct_key)
  with assms(1,4) show ?thesis
    by (simp add: acceptQuery_def)
qed

theorem acceptQuery_self_witness:
  "currentUser (app_open\<lparr>currentUserId := Some ''a1''\<rparr>) = Some alice \<and>
   heaps \<in> set (queries (app_open\<lparr>currentUserId := Some ''a1''\<rparr>)) \<and>
   distinct (map qid (queries (app_open\<lparr>currentUserId := Some ''a1''\<rparr>))) \<and>
   askerId heaps = uid alice \<and>
   acceptQuery zone_utc (app_open\<lparr>currentUserId := Some ''a1''\<rparr>) (qid heaps) 5000 ''s1'' ''n1'' 5001 =
     (Some ''You cannot accept your own query.'', app_open\<lparr>currentUserId := Some ''a1''\<rparr>)"
proof -
  let ?a = "app_open\<lparr>currentUserId := Some ''a1''\<rparr>"
  have h1: "currentUser ?a = Some alice"
    by (simp add: currentUser_def app_open_def alice_def)
  have h2: "heaps \<in> set (queries ?a)" by (simp add: app_open_def)
  have h3: "distinct (map qid (queries ?a))" by (simp add: app_open_def)
  have h4: "askerId heaps = uid alice" by (simp add: heaps_def alice_def)
  show ?thesis
    using h1 h2 h3 h4 acceptQuery_self [OF h1 h2 h3 h4, of zone_utc 5000 "''s1''" "''n1''" 5001]
    by simp
qed

text \<open>
  Claim C10. When no query of the collection has the identifier given, \<open>acceptQuery\<close> raises
  no alert and returns the snapshot it was given.
\<close>

theorem acceptQuery_unknown_query:
  "\<forall>q \<in> set (queries a). qid q \<noteq> queryId' \<Longrightarrow>
   acceptQuery tza a queryId' dnow newSid newNid tnow = (None, a)"
proof -
  assume "\<forall>q \<in> set (queries a). qid q \<noteq> queryId'"
  then have "find (\<lambda>q. qid q = queryId') (queries a) = None"
    by (simp add: find_None_iff)
  then show ?thesis
    by (simp add: acceptQuery_def split: option.splits)
qed

theorem acceptQuery_unknown_query_witness:
  "map qid (queries app_open) = [''q1''] \<and>
   acceptQuery zone_utc app_open ''q7'' 5000 ''s1'' ''n1'' 5001 = (None, app_open)"
proof -
  have h: "\<forall>q \<in> set (queries app_open). qid q \<noteq> ''q7''"
    by (simp add: app_open_def heaps_def)
  have k: "map qid (queries app_open) = [''q1'']"
    by (simp add: app_open_def heaps_def)
  show ?thesis
    using k acceptQuery_unknown_query [OF h, of zone_utc 5000 "''s1''" "''n1''" 5001] by simp
qed

subsection \<open>Statistics\<close>

lemma foldl_plus_sum_list:
  "foldl (\<lambda>acc s. acc + f s) k xs = (k::int) + sum_list (map f xs)"
  by (induction xs arbitrary: k) simp_all

lemma sessionsAsMentor_num:
  "map (\<lambda>s. num (ratingForMentor s)) (sessionsAsMentor u ss) =
   map (\<lambda>s. the (ratingForMentor s)) (sessionsAsMentor u ss)"
  by (rule map_cong) (auto simp: sessionsAsMentor_def)

lemma sessionsAsMentor_num10:
  "map (\<lambda>s. num (ratingForMentor s) * 10) (sessionsAsMentor u ss) =
   map (\<lambda>s. the (ratingForMentor s) * 10) (sessionsAsMentor u ss)"
  by (rule map_cong) (auto simp: sessionsAsMentor_def)

lemma updateUserStats_sums:
  "updateUserStats u a =
    a\<lparr>users :=
        map (\<lambda>x. if uid x = u
                  then x\<lparr>xp := (\<Sum>s\<leftarrow>sessionsAsMentor u (sessions a). the (ratingForMentor s) * 10),
                         ratingAvg :=
                           (if 0 < length (sessionsAsMentor u (sessions a))
                            then of_int (\<Sum>s\<leftarrow>sessionsAsMentor u (sessions a). the (ratingForMentor s))
                                 / of_nat (length (sessionsAsMentor u (sessions a)))
                            else 0),
                         ratingCount := length (sessionsAsMentor u (sessions a)),
                         level := computeLevel (of_int
                           (\<Sum>s\<leftarrow>sessionsAsMentor u (sessions a). the (ratingForMentor s) * 10))\<rparr>
                  else x) (users a)\<rparr>"
  by (simp add: updateUserStats_def Let_def foldl_plus_sum_list sessionsAsMentor_num
      sessionsAsMentor_num10)

lemma sessions_updateUserStats: "sessions (updateUserStats u a) = sessions a"
  by (simp add: updateUserStats_def Let_def)

text \<open>
  Claim C2. For every user id \<open>u\<close> and snapshot \<open>a\<close>, with \<open>S\<close> the sessions of \<open>a\<close> whose mentor is
  \<open>u\<close>, whose status is Completed and whose rating for the mentor is set, \<open>updateUserStats\<close>
  returns \<open>a\<close> with only the four statistics of the users with id \<open>u\<close> replaced: XP by the sum
  of ten times the ratings of \<open>S\<close>, the rating count by the size of \<open>S\<close>, the rating average by
  the sum of the ratings over the count (0 when the count is 0), and the level by the tier of
  that XP: 1 on 0 to 99, 2 on 100 to 299, 3 on 300 to 699, 4 on 700 to 1499, 5 from 1500.
  Every other user, every other field, and the queries, sessions and notifications are those
  of \<open>a\<close>.
\<close>

theorem updateUserStats_recompute:
  "let S = filter (\<lambda>s. mentorId s = u \<and> sstatus s = ''Completed'' \<and> ratingForMentor s \<noteq> None)
             (sessions a);
       X = (\<Sum>s\<leftarrow>S. the (ratingForMentor s) * 10);
       N = length S;
       A = (if 0 < N then of_int (\<Sum>s\<leftarrow>S. the (ratingForMentor s)) / of_nat N else 0)
   in updateUserStats u a =
        a\<lparr>users := map (\<lambda>x. if uid x = u
                              then x\<lparr>xp := X, ratingAvg := A, ratingCount := N,
                                     level := computeLevel (of_int X)\<rparr>
                              else x) (users a)\<rparr> \<and>
      (0 \<le> X \<and> X \<le> 99 \<longrightarrow> computeLevel (of_int X) = 1) \<and>
      (100 \<le> X \<and> X \<le> 299 \<longrightarrow> computeLevel (of_int X) = 2) \<and>
      (300 \<le> X \<and> X \<le> 699 \<longrightarrow> computeLevel (of_int X) = 3) \<and>
      (700 \<le> X \<and> X \<le> 1499 \<longrightarrow> computeLevel (of_int X) = 4) \<and>
      (1500 \<le> X \<longrightarrow> computeLevel (of_int X) = 5)"
  unfolding Let_def
  by (simp add: updateUserStats_sums [unfolded sessionsAsMentor_def] computeLevel_tiers)

theorem updateUserStats_recompute_witness:
  "(100::int) \<le> 120 \<and> (120::int) \<le> 299 \<and>
   updateUserStats ''b2'' app_history =
     app_history\<lparr>users := [alice, bob\<lparr>xp := 120, ratingAvg := 4, ratingCount := 3, level := 2\<rparr>,
                             carol]\<rparr>"
  using updateUserStats_recompute [of "''b2''" app_history]
  by (simp add: Let_def app_history_def session_of_def alice_def bob_def carol_def)

subsection \<open>Rating a session\<close>

lemma nextSessions_distinct:
  assumes "s \<in> set ss" and "distinct (map sid ss)"
  shows "nextSessions ss (sid s) r True =
           map (\<lambda>x. if x = s then s\<lparr>ratingForMentor := Some r\<rparr> else x) ss"
    and "nextSessions ss (sid s) r False =
           map (\<lambda>x. if x = s then s\<lparr>ratingForMentee := Some r\<rparr> else x) ss"
proof -
  have "nextSessions ss (sid s) r True =
          map (\<lambda>x. if sid x = sid s then x\<lparr>ratingForMentor := Some r\<rparr> else x) ss"
    unfolding nextSessions_def by (rule map_cong) auto
  then show "nextSessions ss (sid s) r True =
           map (\<lambda>x. if x = s then s\<lparr>ratingForMentor := Some r\<rparr> else x) ss"
    using map_distinct_key [OF assms, of "\<lambda>x. x\<lparr>ratingForMentor := Some r\<rparr>"] by simp
  have "nextSessions ss (sid s) r False =
          map (\<lambda>x. if sid x = sid s then x\<lparr>ratingForMentee := Some r\<rparr> else x) ss"
    unfolding nextSessions_def by (rule map_cong) auto
  then show "nextSessions ss (sid s) r False =
           map (\<lambda>x. if x = s then s\<lparr>ratingForMentee := Some r\<rparr> else x) ss"
    using map_distinct_key [OF assms, of "\<lambda>x. x\<lparr>ratingForMentee := Some r\<rparr>"] by simp
qed

lemma rateSession_forMentee:
  "rateSession a i r False = a\<lparr>sessions := nextSessions (sessions a) i r False\<rparr>"
  by (simp add: rateSession_def Let_def split: option.splits)

lemma rateSession_forMentor:
  "find (\<lambda>x. sid x = i) (sessions a) = Some s \<Longrightarrow>
   rateSession a i r True =
     updateUserStats (mentorId s) (a\<lparr>sessions := nextSessions (sessions a) i r True\<rparr>)"
  by (simp add: rateSession_def Let_def)

text \<open>
  Claim C8. In a snapshot whose sessions have distinct identifiers, let \<open>s\<close> be a session of
  the collection. Rating the mentor of \<open>s\<close> writes the rating into \<open>s\<close> and nothing else into the
  sessions, and the snapshot returned is \<open>updateUserStats\<close> of the mentor of \<open>s\<close> run on the
  sessions after that write: the mentor's XP, rating average, rating count and level are the
  sums, the quotient and the tier over the rated Completed sessions of the new collection.
  Rating the mentee of \<open>s\<close> writes the rating into \<open>s\<close> and changes nothing else: the users, and so
  all their statistics, are the old ones.
\<close>

theorem rateSession_stats:
  assumes "s \<in> set (sessions a)" and "distinct (map sid (sessions a))"
  shows
   "(let a' = rateSession a (sid s) r True;
         S = filter (\<lambda>x. mentorId x = mentorId s \<and> sstatus x = ''Completed'' \<and>
                          ratingForMentor x \<noteq> None) (sessions a');
         X = (\<Sum>x\<leftarrow>S. the (ratingForMentor x) * 10);
         N = length S;
         A = (if 0 < N then of_int (\<Sum>x\<leftarrow>S. the (ratingForMentor x)) / of_nat N else 0)
     in sessions a' = map (\<lambda>x. if x = s then s\<lparr>ratingForMentor := Some r\<rparr> else x) (sessions a) \<and>
        a' = updateUserStats (mentorId s) (a\<lparr>sessions := sessions a'\<rparr>) \<and>
        users a' = map (\<lambda>x. if uid x = mentorId s
                              then x\<lparr>xp := X, ratingAvg := A, ratingCount := N,
                                     level := computeLevel (of_int X)\<rparr>
                              else x) (users a)) \<and>
    (let a'' = rateSession a (sid s) r False
     in sessions a'' = map (\<lambda>x. if x = s then s\<lparr>ratingForMentee := Some r\<rparr> else x) (sessions a) \<and>
        users a'' = users a \<and> a'' = a\<lparr>sessions := sessions a''\<rparr>)"
proof -
  have f: "find (\<lambda>x. sid x = sid s) (sessions a) = Some s"
    using assms by (rule find_distinct_key)
  have m: "rateSession a (sid s) r True =
      updateUserStats (mentorId s) (a\<lparr>sessions := nextSessions (sessions a) (sid s) r True\<rparr>)"
    using f by (rule rateSession_forMentor)
  have s1: "sessions (rateSession a (sid s) r True) = nextSessions (sessions a) (sid s) r True"
    by (simp add: m sessions_updateUserStats)
  have u1: "users (rateSession a (sid s) r True) =
      users (updateUserStats (mentorId s) (a\<lparr>sessions := nextSessions (sessions a) (sid s) r True\<rparr>))"
    by (simp add: m)
  have first: "sessions (rateSession a (sid s) r True) =
      map (\<lambda>x. if x = s then s\<lparr>ratingForMentor := Some r\<rparr> else x) (sessions a)"
    by (simp add: s1 nextSessions_distinct [OF assms])
  have second: "rateSession a (sid s) r True =
      updateUserStats (mentorId s) (a\<lparr>sessions := sessions (rateSession a (sid s) r True)\<rparr>)"
    by (simp add: s1) (rule m)
  have third: "users (rateSession a (sid s) r True) =
      map (\<lambda>x. if uid x = mentorId s
         then x\<lparr>xp := (\<Sum>x\<leftarrow>sessionsAsMentor (mentorId s) (sessions (rateSession a (sid s) r True)).
                          the (ratingForMentor x) * 10),
                ratingAvg :=
                  (if 0 < length (sessionsAsMentor (mentorId s) (sessions (rateSession a (sid s) r True)))
                   then of_int (\<Sum>x\<leftarrow>sessionsAsMentor (mentorId s) (sessions (rateSession a (sid s) r True)).
                          the (ratingForMentor x))
                        / of_nat (length (sessionsAsMentor (mentorId s)
                                            (sessions (rateSession a (sid s) r True))))
                   else 0),
                ratingCount :=
                  length (sessionsAsMentor (mentorId s) (sessions (rateSession a (sid s) r True))),
                level := computeLevel (of_int
                  (\<Sum>x\<leftarrow>sessionsAsMentor (mentorId s) (sessions (rateSession a (sid s) r True)).
                          the (ratingForMentor x) * 10))\<rparr>
         else x) (users a)"
    unfolding s1 u1 by (simp add: updateUserStats_sums)
  have fourth: "sessions (rateSession a (sid s) r False) =
      map (\<lambda>x. if x = s then s\<lparr>ratingForMentee := Some r\<rparr> else x) (sessions a)"
    by (simp add: rateSession_forMentee nextSessions_distinct [OF assms])
  have fifth: "users (rateSession a (sid s) r False) = users a"
    by (simp add: rateSession_forMentee)
  have sixth: "rateSession a (sid s) r False =
      a\<lparr>sessions := sessions (rateSession a (sid s) r False)\<rparr>"
    by (simp add: rateSession_forMentee)
  show ?thesis
    unfolding Let_def
    using first second third [unfolded sessionsAsMentor_def] fourth fifth sixth
    by blast
qed

theorem rateSession_stats_witness:
  "heaps_session\<lparr>sstatus := ''Completed''\<rparr> \<in> set (sessions app_completed) \<and>
   distinct (map sid (sessions app_completed)) \<and>
   rateSession app_completed ''s1'' 5 True =
     app_completed\<lparr>sessions := [heaps_session\<lparr>sstatus := ''Completed'', ratingForMentor := Some 5\<rparr>],
                   users := [alice, bob\<lparr>xp := 50, ratingAvg := 5, ratingCount := 1, level := 1\<rparr>,
                             carol]\<rparr> \<and>
   rateSession app_completed ''s1'' 4 False =
     app_completed\<lparr>sessions := [heaps_session\<lparr>sstatus := ''Completed'', ratingForMentee := Some 4\<rparr>]\<rparr>"
proof -
  let ?s = "heaps_session\<lparr>sstatus := ''Completed''\<rparr>"
  have h1: "?s \<in> set (sessions app_completed)" by (simp add: app_completed_def)
  have h2: "distinct (map sid (sessions app_completed))" by (simp add: app_completed_def)
  have h3: "sid ?s = ''s1''" by (simp add: heaps_session_def)
  have h4: "mentorId ?s = ''b2''" by (simp add: heaps_session_def)
  have m: "sessions (rateSession app_completed ''s1'' 5 True) =
        map (\<lambda>x. if x = ?s then ?s\<lparr>ratingForMentor := Some 5\<rparr> else x) (sessions app_completed)"
    and k: "rateSession app_completed ''s1'' 5 True =
        updateUserStats ''b2''
          (app_completed\<lparr>sessions := sessions (rateSession app_completed ''s1'' 5 True)\<rparr>)"
    using rateSession_stats [OF h1 h2, of 5] unfolding Let_def h3 h4 by blast+
  have e: "sessions (rateSession app_completed ''s1'' 4 False) =
        map (\<lambda>x. if x = ?s then ?s\<lparr>ratingForMentee := Some 4\<rparr> else x) (sessions app_completed)"
    and l: "rateSession app_completed ''s1'' 4 False =
        app_completed\<lparr>sessions := sessions (rateSession app_completed ''s1'' 4 False)\<rparr>"
    using rateSession_stats [OF h1 h2, of 4] unfolding Let_def h3 h4 by blast+
  have m': "sessions (rateSession app_completed ''s1'' 5 True) = [?s\<lparr>ratingForMentor := Some 5\<rparr>]"
    unfolding m by (simp add: app_completed_def)
  have e': "sessions (rateSession app_completed ''s1'' 4 False) = [?s\<lparr>ratingForMentee := Some 4\<rparr>]"
    unfolding e by (simp add: app_completed_def)
  have r1: "rateSession app_completed ''s1'' 5 True =
      updateUserStats ''b2'' (app_completed\<lparr>sessions := [?s\<lparr>ratingForMentor := Some 5\<rparr>]\<rparr>)"
    using k unfolding m' .
  have r2: "rateSession app_completed ''s1'' 4 False =
      app_completed\<lparr>sessions := [?s\<lparr>ratingForMentee := Some 4\<rparr>]\<rparr>"
    using l unfolding e' .
  have u: "updateUserStats ''b2'' (app_completed\<lparr>sessions := [?s\<lparr>ratingForMentor := Some 5\<rparr>]\<rparr>) =
      app_completed\<lparr>sessions := [?s\<lparr>ratingForMentor := Some 5\<rparr>],
                    users := [alice, bob\<lparr>xp := 50, ratingAvg := 5, ratingCount := 1, level := 1\<rparr>,
                              carol]\<rparr>"
    by (simp add: updateUserStats_sums sessionsAsMentor_def computeLevel_cases app_completed_def
        heaps_session_def alice_def bob_def carol_def)
  show ?thesis
    using h1 h2 r1 r2 u by simp
qed

subsection \<open>Signing up\<close>

lemma endsWith_examples:
  "endsWith ''alice@pccoepune.org'' ''@pccoepune.org''"
  "endsWith ''bob@pccoepune.org'' ''@pccoepune.org''"
  "\<not> endsWith ''mallory@example.com'' ''@pccoepune.org''"
  by (simp_all add: endsWith_def)

text \<open>
  Claim C6. \<open>handleSignup\<close> goes through three cases in this order. An email that does not
  end with the institution's domain: the alert of the validation failure, and the snapshot
  is the one given. Otherwise, an email that some user already has: the alert that the user
  exists, no user is created (only the form switches to login). Otherwise exactly one user
  is appended, whose role is admin when the user collection was empty and student when it
  was not, with XP 0, level 1, rating average 0, rating count 0 and not blocked.
\<close>

theorem handleSignup_cases:
  "(\<not> endsWith em ''@pccoepune.org'' \<longrightarrow>
      handleSignup a em pw newId = (Some ''Only @pccoepune.org emails are allowed.'', a)) \<and>
   (endsWith em ''@pccoepune.org'' \<and> (\<exists>u \<in> set (users a). email u = em) \<longrightarrow>
      handleSignup a em pw newId =
        (Some ''User already exists. Please login.'', a\<lparr>authMode := ''login''\<rparr>)) \<and>
   (endsWith em ''@pccoepune.org'' \<and> \<not> (\<exists>u \<in> set (users a). email u = em) \<longrightarrow>
      handleSignup a em pw newId =
        (None,
         a\<lparr>users := users a @
              [\<lparr>uid = newId, email = em, password = pw, name = nameDefault em, year = None,
                branch = None, strongSubjects = [], bio = [], avatar = None,
                role = (if users a = [] then ''admin'' else ''student''),
                xp = 0, level = 1, ratingAvg = 0, ratingCount = 0, isBlocked = False\<rparr>],
           currentUserId := Some newId, route := ''profile''\<rparr>))"
  by (simp add: handleSignup_def newUser_def list_ex_iff)

theorem handleSignup_cases_witness:
  "\<not> endsWith ''mallory@example.com'' ''@pccoepune.org'' \<and>
   handleSignup initial_app ''mallory@example.com'' ''pw0'' ''m0'' =
     (Some ''Only @pccoepune.org emails are allowed.'', initial_app) \<and>
   endsWith ''alice@pccoepune.org'' ''@pccoepune.org'' \<and>
   \<not> (\<exists>u \<in> set (users initial_app). email u = ''alice@pccoepune.org'') \<and>
   handleSignup initial_app ''alice@pccoepune.org'' ''pw1'' ''a1'' =
     (None, initial_app\<lparr>users := [alice], currentUserId := Some ''a1'', route := ''profile''\<rparr>) \<and>
   \<not> (\<exists>u \<in> set [alice]. email u = ''bob@pccoepune.org'') \<and>
   handleSignup (initial_app\<lparr>users := [alice]\<rparr>) ''bob@pccoepune.org'' ''pw2'' ''b2'' =
     (None, initial_app\<lparr>users := [alice, bob], currentUserId := Some ''b2'',
                        route := ''profile''\<rparr>) \<and>
   (\<exists>u \<in> set [alice]. email u = ''alice@pccoepune.org'') \<and>
   handleSignup (initial_app\<lparr>users := [alice]\<rparr>) ''alice@pccoepune.org'' ''pw9'' ''x9'' =
     (Some ''User already exists. Please login.'',
      initial_app\<lparr>users := [alice], authMode := ''login''\<rparr>)"
  using handleSignup_cases [of "''mallory@example.com''" initial_app "''pw0''" "''m0''"]
    handleSignup_cases [of "''alice@pccoepune.org''" initial_app "''pw1''" "''a1''"]
    handleSignup_cases [of "''bob@pccoepune.org''" "initial_app\<lparr>users := [alice]\<rparr>" "''pw2''" "''b2''"]
    handleSignup_cases [of "''alice@pccoepune.org''" "initial_app\<lparr>users := [alice]\<rparr>" "''pw9''" "''x9''"]
  by (simp add: endsWith_examples initial_app_def alice_def bob_def nameDefault_def)

subsection \<open>Leaderboard\<close>

lemma mset_insert_cmp: "mset (insert_cmp c x xs) = add_mset x (mset xs)"
  by (induction xs) simp_all

lemma set_insert_cmp: "set (insert_cmp c x xs) = insert x (set xs)"
  by (induction xs) auto

lemma mset_sort_cmp: "mset (sort_cmp c xs) = mset xs"
  by (induction xs) (simp_all add: sort_cmp_def mset_insert_cmp)

lemma sorted_insert_cmp:
  assumes tot: "\<And>x y. c x y \<le> 0 \<or> c y x \<le> 0"
    and trans: "\<And>x y z. c x y \<le> 0 \<Longrightarrow> c y z \<le> 0 \<Longrightarrow> c x z \<le> 0"
  shows "sorted_wrt (\<lambda>x y. c x y \<le> 0) xs \<Longrightarrow> sorted_wrt (\<lambda>x y. c x y \<le> 0) (insert_cmp c x xs)"
proof (induction xs)
  case Nil
  then show ?case by simp
next
  case (Cons y ys)
  show ?case
  proof (cases "c x y \<le> 0")
    case True
    with Cons.prems show ?thesis using trans by auto
  next
    case False
    then have "c y x \<le> 0" using tot [of x y] by simp
    with False Cons show ?thesis by (auto simp: set_insert_cmp)
  qed
qed

lemma sorted_sort_cmp:
  assumes "\<And>x y. c x y \<le> 0 \<or> c y x \<le> 0"
    and "\<And>x y z. c x y \<le> 0 \<Longrightarrow> c y z \<le> 0 \<Longrightarrow> c x z \<le> 0"
  shows "sorted_wrt (\<lambda>x y. c x y \<le> 0) (sort_cmp c xs)"
proof (induction xs)
  case Nil
  show ?case by (simp add: sort_cmp_def)
next
  case (Cons x xs)
  have "sort_cmp c (x # xs) = insert_cmp c x (sort_cmp c xs)"
    by (simp add: sort_cmp_def)
  with Cons show ?case
    using sorted_insert_cmp [of c, OF assms] by simp
qed

lemma sorted_wrt_unique:
  assumes "sorted_wrt R xs" and "sorted_wrt R ys" and "mset xs = mset ys"
    and "\<And>x y. x \<in> set xs \<Longrightarrow> y \<in> set xs \<Longrightarrow> R x y \<Longrightarrow> R y x \<Longrightarrow> x = y"
  shows "xs = ys"
  using assms
proof (induction xs arbitrary: ys)
  case Nil
  then show ?case by simp
next
  case (Cons x xs)
  from Cons.prems(3) obtain y ys' where ys: "ys = y # ys'"
    by (cases ys) auto
  have sets: "set (x # xs) = set (y # ys')"
    using Cons.prems(3) ys by (metis set_mset_mset)
  have xy: "x = y"
  proof (rule ccontr)
    assume ne: "x \<noteq> y"
    then have "x \<in> set ys'" and "y \<in> set xs" using sets by auto
    then have "R y x" and "R x y" using Cons.prems(1,2) ys by auto
    moreover have "x \<in> set (x # xs)" and "y \<in> set (x # xs)" using \<open>y \<in> set xs\<close> by auto
    ultimately have "x = y" using Cons.prems(4) by blast
    with ne show False by simp
  qed
  have "xs = ys'"
  proof (rule Cons.IH)
    show "sorted_wrt R xs" using Cons.prems(1) by simp
    show "sorted_wrt R ys'" using Cons.prems(2) ys by simp
    show "mset xs = mset ys'" using Cons.prems(3) ys xy by simp
    show "\<And>a b. a \<in> set xs \<Longrightarrow> b \<in> set xs \<Longrightarrow> R a b \<Longrightarrow> R b a \<Longrightarrow> a = b"
      using Cons.prems(4) by simp
  qed
  with xy ys show ?case by simp
qed

lemma leaderboard_cmp_le: "leaderboard_cmp lc st u v \<le> 0 \<longleftrightarrow> ranks_before lc st u v"
  by (auto simp: leaderboard_cmp_def ranks_before_def Let_def)

lemma total_ordering_linear: "total_ordering lc \<Longrightarrow> lc x y \<le> 0 \<or> lc y x \<le> 0"
  unfolding total_ordering_def by (metis less_eq_rat_def not_le)

lemma total_ordering_trans: "total_ordering lc \<Longrightarrow> lc x y \<le> 0 \<Longrightarrow> lc y z \<le> 0 \<Longrightarrow> lc x z \<le> 0"
  unfolding total_ordering_def by blast

lemma total_ordering_level: "total_ordering lc \<Longrightarrow> lc x y \<le> 0 \<Longrightarrow> lc y x \<le> 0 \<Longrightarrow> lc x y = 0"
  unfolding total_ordering_def by (metis less_eq_rat_def not_le)

lemma total_ordering_compare_by: "total_ordering (compare_by key)"
  by (auto simp: total_ordering_def compare_by_def)

lemma ranks_before_total:
  "total_ordering lc \<Longrightarrow> ranks_before lc st u v \<or> ranks_before lc st v u"
  using total_ordering_linear [of lc "uid u" "uid v"] unfolding ranks_before_def by auto

lemma ranks_before_trans:
  "total_ordering lc \<Longrightarrow> ranks_before lc st u v \<Longrightarrow> ranks_before lc st v w \<Longrightarrow>
   ranks_before lc st u w"
  using total_ordering_trans [of lc "uid u" "uid v" "uid w"] unfolding ranks_before_def by auto

lemma ranks_before_antisym:
  "total_ordering lc \<Longrightarrow> ranks_before lc st u v \<Longrightarrow> ranks_before lc st v u \<Longrightarrow>
   lc (uid u) (uid v) = 0"
  using total_ordering_level [of lc "uid u" "uid v"] unfolding ranks_before_def by auto

lemma leaderboard_sorted_wrt:
  assumes "total_ordering lc"
  shows "sorted_wrt (ranks_before lc a) (leaderboard lc a)"
proof -
  have "sorted_wrt (\<lambda>x y. leaderboard_cmp lc a x y \<le> 0)
          (sort_cmp (leaderboard_cmp lc a) (users a))"
  proof (rule sorted_sort_cmp)
    show "\<And>x y. leaderboard_cmp lc a x y \<le> 0 \<or> leaderboard_cmp lc a y x \<le> 0"
      by (simp add: leaderboard_cmp_le ranks_before_total [OF assms])
    show "\<And>x y z. leaderboard_cmp lc a x y \<le> 0 \<Longrightarrow> leaderboard_cmp lc a y z \<le> 0 \<Longrightarrow>
            leaderboard_cmp lc a x z \<le> 0"
      unfolding leaderboard_cmp_le by (rule ranks_before_trans [OF assms])
  qed
  then show ?thesis
    by (simp add: leaderboard_def leaderboard_cmp_le)
qed

lemma leaderboard_unique:
  assumes "total_ordering lc" and "distinct (map uid (users a))"
    and "\<forall>u \<in> set (users a). \<forall>v \<in> set (users a). lc (uid u) (uid v) = 0 \<longrightarrow> uid u = uid v"
    and "mset xs = mset (users a)" and "sorted_wrt (ranks_before lc a) xs"
  shows "xs = leaderboard lc a"
proof (rule sorted_wrt_unique [of "ranks_before lc a"])
  show "sorted_wrt (ranks_before lc a) xs" by (rule assms(5))
  show "sorted_wrt (ranks_before lc a) (leaderboard lc a)"
    by (rule leaderboard_sorted_wrt [OF assms(1)])
  show "mset xs = mset (leaderboard lc a)"
    by (simp add: assms(4) leaderboard_def mset_sort_cmp)
  fix x y
  assume "x \<in> set xs" and "y \<in> set xs" and "ranks_before lc a x y" and "ranks_before lc a y x"
  then have "lc (uid x) (uid y) = 0" and x: "x \<in> set (users a)" and y: "y \<in> set (users a)"
    using assms(1,4) by (auto dest: ranks_before_antisym mset_eq_setD)
  then have "uid x = uid y" using assms(3) by blast
  with assms(2) x y show "x = y"
    by (auto simp: distinct_map inj_on_def)
qed

lemma leaderboard_tie_break:
  assumes "total_ordering lc"
    and "i < length (leaderboard lc a)" and "j < length (leaderboard lc a)"
    and "xp (leaderboard lc a ! i) = xp (leaderboard lc a ! j)"
    and "ratingAvg (leaderboard lc a ! i) = ratingAvg (leaderboard lc a ! j)"
    and "length (filter (\<lambda>s. mentorId s = uid (leaderboard lc a ! i) \<and> sstatus s = ''Completed'')
                   (sessions a)) =
         length (filter (\<lambda>s. mentorId s = uid (leaderboard lc a ! j) \<and> sstatus s = ''Completed'')
                   (sessions a))"
    and "lc (uid (leaderboard lc a ! i)) (uid (leaderboard lc a ! j)) < 0"
  shows "i < j"
proof (rule ccontr)
  assume "\<not> i < j"
  moreover have "i \<noteq> j"
  proof
    assume "i = j"
    with assms(7) have "lc (uid (leaderboard lc a ! i)) (uid (leaderboard lc a ! i)) < 0" by simp
    with assms(1) show False unfolding total_ordering_def by (metis less_asym)
  qed
  ultimately have "j < i" by simp
  with assms(2) have "ranks_before lc a (leaderboard lc a ! j) (leaderboard lc a ! i)"
    using leaderboard_sorted_wrt [OF assms(1), of a] by (simp add: sorted_wrt_iff_nth_less)
  with assms(4-6) have "lc (uid (leaderboard lc a ! j)) (uid (leaderboard lc a ! i)) \<le> 0"
    by (auto simp: ranks_before_def)
  with assms(1,7) show False
    unfolding total_ordering_def by (metis not_le)
qed

text \<open>
  Claim C5, as stated, at the input where it fails. Two users tied on XP, rating average and
  Completed count, with the identifiers \<open>ch1\<close> and \<open>d2\<close>: \<open>ch1\<close> is the smaller string, and under
  the Czech collation the leaderboard has \<open>d2\<close> first.
\<close>

theorem leaderboard_locale_counterexample:
  "users app_pair = [user_ch1, user_d2] \<and> sessions app_pair = [] \<and>
   xp user_ch1 = xp user_d2 \<and> ratingAvg user_ch1 = ratingAvg user_d2 \<and>
   uid user_ch1 = ''ch1'' \<and> uid user_d2 = ''d2'' \<and> ''ch1'' < ''d2'' \<and>
   leaderboard (compare_by cs_key) app_pair = [user_d2, user_ch1]"
  by (simp add: leaderboard_def sort_cmp_def leaderboard_cmp_def compare_by_def app_pair_def
      initial_app_def user_ch1_def user_d2_def)

text \<open>
  Claim C5, amended. For a collation that is a total ordering of the strings, the
  leaderboard holds exactly the users of the snapshot, ordered by \<open>ranks_before\<close>: XP
  descending, then rating average descending, then the number of the user's sessions as
  mentor with status Completed descending, then identifier ascending in that collation,
  which need not be the order of the identifiers as strings. That order of the users is
  total and transitive, and two users each ranked before the other have identifiers that the
  collation puts level. Two users of the leaderboard tied on XP, rating average and
  Completed count stand with the identifier that the collation puts first in front. When
  the identifiers of the users are distinct and the collation puts no two of them level,
  the leaderboard is the only arrangement of the users that is ordered this way.
\<close>

theorem leaderboard_order:
  assumes "total_ordering lc"
  shows
  "mset (leaderboard lc a) = mset (users a) \<and>
   sorted_wrt (ranks_before lc a) (leaderboard lc a) \<and>
   (\<forall>u v. ranks_before lc a u v \<or> ranks_before lc a v u) \<and>
   (\<forall>u v w. ranks_before lc a u v \<and> ranks_before lc a v w \<longrightarrow> ranks_before lc a u w) \<and>
   (\<forall>u v. ranks_before lc a u v \<and> ranks_before lc a v u \<longrightarrow> lc (uid u) (uid v) = 0) \<and>
   (\<forall>i j. i < length (leaderboard lc a) \<and> j < length (leaderboard lc a) \<and>
          xp (leaderboard lc a ! i) = xp (leaderboard lc a ! j) \<and>
          ratingAvg (leaderboard lc a ! i) = ratingAvg (leaderboard lc a ! j) \<and>
          length (filter (\<lambda>s. mentorId s = uid (leaderboard lc a ! i) \<and> sstatus s = ''Completed'')
                    (sessions a)) =
          length (filter (\<lambda>s. mentorId s = uid (leaderboard lc a ! j) \<and> sstatus s = ''Completed'')
                    (sessions a)) \<and>
          lc (uid (leaderboard lc a ! i)) (uid (leaderboard lc a ! j)) < 0 \<longrightarrow> i < j) \<and>
   (distinct (map uid (users a)) \<and>
    (\<forall>u \<in> set (users a). \<forall>v \<in> set (users a). lc (uid u) (uid v) = 0 \<longrightarrow> uid u = uid v) \<longrightarrow>
      (\<forall>xs. mset xs = mset (users a) \<and> sorted_wrt (ranks_before lc a) xs \<longrightarrow>
            xs = leaderboard lc a))"
proof -
  have "mset (leaderboard lc a) = mset (users a)"
    by (simp add: leaderboard_def mset_sort_cmp)
  moreover have "\<forall>u v. ranks_before lc a u v \<or> ranks_before lc a v u"
    by (simp add: ranks_before_total [OF assms])
  moreover have "\<forall>u v w. ranks_before lc a u v \<and> ranks_before lc a v w \<longrightarrow> ranks_before lc a u w"
    by (blast intro: ranks_before_trans [OF assms])
  moreover have "\<forall>u v. ranks_before lc a u v \<and> ranks_before lc a v u \<longrightarrow> lc (uid u) (uid v) = 0"
    by (blast intro: ranks_before_antisym [OF assms])
  moreover have "\<forall>i j. i < length (leaderboard lc a) \<and> j < length (leaderboard lc a) \<and>
          xp (leaderboard lc a ! i) = xp (leaderboard lc a ! j) \<and>
          ratingAvg (leaderboard lc a ! i) = ratingAvg (leaderboard lc a ! j) \<and>
          length (filter (\<lambda>s. mentorId s = uid (leaderboard lc a ! i) \<and> sstatus s = ''Completed'')
                    (sessions a)) =
          length (filter (\<lambda>s. mentorId s = uid (leaderboard lc a ! j) \<and> sstatus s = ''Completed'')
                    (sessions a)) \<and>
          lc (uid (leaderboard lc a ! i)) (uid (leaderboard lc a ! j)) < 0 \<longrightarrow> i < j"
    by (blast intro: leaderboard_tie_break [OF assms])
  moreover have "distinct (map uid (users a)) \<and>
    (\<forall>u \<in> set (users a). \<forall>v \<in> set (users a). lc (uid u) (uid v) = 0 \<longrightarrow> uid u = uid v) \<longrightarrow>
      (\<forall>xs. mset xs = mset (users a) \<and> sorted_wrt (ranks_before lc a) xs \<longrightarrow>
            xs = leaderboard lc a)"
    using leaderboard_unique [OF assms] by blast
  ultimately show ?thesis
    using leaderboard_sorted_wrt [OF assms, of a] by blast
qed

lemma ranked_users:
  "users app_ranked =
     [dave, carol, alice, bob\<lparr>xp := 120, ratingAvg := 4, ratingCount := 3, level := 2\<rparr>]"
  by (simp add: app_ranked_def)

lemma ranked_completed:
  "length (filter (\<lambda>s. mentorId s = uid dave \<and> sstatus s = ''Completed'') (sessions app_ranked)) = 0"
  "length (filter (\<lambda>s. mentorId s = uid alice \<and> sstatus s = ''Completed'') (sessions app_ranked)) = 0"
  "length (filter (\<lambda>s. mentorId s = uid carol \<and> sstatus s = ''Completed'') (sessions app_ranked)) = 1"
  "length (filter (\<lambda>s. mentorId s = uid (bob\<lparr>xp := 120, ratingAvg := 4, ratingCount := 3, level := 2\<rparr>)
                        \<and> sstatus s = ''Completed'') (sessions app_ranked)) = 4"
  "length (filter (\<lambda>s. mentorId s = uid dave) (sessions app_ranked)) = 2"
  by (simp_all add: app_ranked_def app_history_def session_of_def
      alice_def bob_def carol_def dave_def)

lemma ranked_sorted:
  "sorted_wrt (ranks_before (compare_by (\<lambda>x. x)) app_ranked)
     [bob\<lparr>xp := 120, ratingAvg := 4, ratingCount := 3, level := 2\<rparr>, carol, alice, dave]"
  by (simp add: ranks_before_def compare_by_def app_ranked_def app_history_def session_of_def
      alice_def bob_def carol_def dave_def)

lemma ranked_apart:
  "\<forall>u \<in> set (users app_ranked). \<forall>v \<in> set (users app_ranked).
     compare_by (\<lambda>x. x) (uid u) (uid v) = 0 \<longrightarrow> uid u = uid v"
  by (simp add: compare_by_def)

theorem leaderboard_order_witness:
  "total_ordering (compare_by (\<lambda>x. x)) \<and>
   distinct (map uid (users app_ranked)) \<and>
   users app_ranked =
     [dave, carol, alice, bob\<lparr>xp := 120, ratingAvg := 4, ratingCount := 3, level := 2\<rparr>] \<and>
   leaderboard (compare_by (\<lambda>x. x)) app_ranked =
     [bob\<lparr>xp := 120, ratingAvg := 4, ratingCount := 3, level := 2\<rparr>, carol, alice, dave] \<and>
   xp carol = xp dave \<and> ratingAvg carol = ratingAvg dave \<and>
   length (filter (\<lambda>s. mentorId s = uid carol \<and> sstatus s = ''Completed'') (sessions app_ranked)) = 1 \<and>
   length (filter (\<lambda>s. mentorId s = uid dave \<and> sstatus s = ''Completed'') (sessions app_ranked)) = 0 \<and>
   length (filter (\<lambda>s. mentorId s = uid dave) (sessions app_ranked)) = 2 \<and>
   xp alice = xp dave \<and> ratingAvg alice = ratingAvg dave \<and>
   length (filter (\<lambda>s. mentorId s = uid alice \<and> sstatus s = ''Completed'') (sessions app_ranked)) = 0 \<and>
   compare_by (\<lambda>x. x) (uid alice) (uid dave) < 0 \<and>
   total_ordering (compare_by cs_key) \<and> distinct (map uid (users app_pair)) \<and>
   compare_by cs_key (uid user_d2) (uid user_ch1) < 0 \<and>
   leaderboard (compare_by cs_key) app_pair = [user_d2, user_ch1]"
proof -
  let ?xs = "[bob\<lparr>xp := 120, ratingAvg := 4, ratingCount := 3, level := 2\<rparr>, carol, alice, dave]"
  have t: "total_ordering (compare_by (\<lambda>x. x))" by (rule total_ordering_compare_by)
  have d: "distinct (map uid (users app_ranked))"
    by (simp add: ranked_users alice_def bob_def carol_def dave_def)
  have m: "mset ?xs = mset (users app_ranked)"
    by (simp add: ranked_users)
  have "?xs = leaderboard (compare_by (\<lambda>x. x)) app_ranked"
    using leaderboard_order [OF t, of app_ranked] d m ranked_sorted ranked_apart by blast
  moreover have "compare_by (\<lambda>x. x) (uid alice) (uid dave) < 0"
    by (simp add: compare_by_def alice_def dave_def)
  moreover have c: "total_ordering (compare_by cs_key)" by (rule total_ordering_compare_by)
  moreover have p: "distinct (map uid (users app_pair))"
    by (simp add: app_pair_def user_ch1_def user_d2_def)
  moreover have k: "compare_by cs_key (uid user_d2) (uid user_ch1) < 0"
    by (simp add: compare_by_def user_ch1_def user_d2_def)
  moreover have "[user_d2, user_ch1] = leaderboard (compare_by cs_key) app_pair"
  proof -
    have "mset [user_d2, user_ch1] = mset (users app_pair)"
      by (simp add: app_pair_def)
    moreover have "sorted_wrt (ranks_before (compare_by cs_key) app_pair) [user_d2, user_ch1]"
      using k by (simp add: ranks_before_def app_pair_def initial_app_def)
        (simp add: user_ch1_def user_d2_def)
    moreover have "\<forall>u \<in> set (users app_pair). \<forall>v \<in> set (users app_pair).
        compare_by cs_key (uid u) (uid v) = 0 \<longrightarrow> uid u = uid v"
      by (simp add: compare_by_def app_pair_def user_ch1_def user_d2_def)
    ultimately show ?thesis
      using leaderboard_order [OF c, of app_pair] p by blast
  qed
  ultimately show ?thesis
    using t d by (simp add: ranked_users ranked_completed) (simp add: alice_def carol_def dave_def)
qed

subsection \<open>Ratings through the controls of the page\<close>

lemma sessions_handleSignup: "sessions (snd (handleSignup a em pw i)) = sessions a"
  by (simp add: handleSignup_def)

lemma sessions_handleLogin: "sessions (snd (handleLogin a em pw)) = sessions a"
  by (simp add: handleLogin_def split: option.splits)

lemma sessions_handleLogout: "sessions (handleLogout a) = sessions a"
  by (simp add: handleLogout_def)

lemma sessions_updateProfile: "sessions (updateProfile a u) = sessions a"
  by (simp add: updateProfile_def split: option.splits)

lemma sessions_createQuery: "sessions (createQuery a d i t) = sessions a"
  by (simp add: createQuery_def split: option.splits)

lemma sessions_toggleBlockUser: "sessions (toggleBlockUser a i) = sessions a"
  by (simp add: toggleBlockUser_def)

lemma sessions_acceptQuery:
  "sessions (snd (acceptQuery tza a i d ns nn t)) = sessions a \<or>
   (\<exists>cu q. sessions (snd (acceptQuery tza a i d ns nn t)) = sessions a @ [newSession tza cu q i d ns])"
  by (auto simp: acceptQuery_def split: option.splits)

lemma sessions_markSessionComplete:
  "sessions (markSessionComplete a i as d) =
     map (\<lambda>s. if sid s = i then s\<lparr>sstatus := (if d then ''Completed'' else ''No-show'')\<rparr> else s)
       (sessions a)"
  by (simp add: markSessionComplete_def)

lemma sessions_rateSession:
  "sessions (rateSession a i r f) = nextSessions (sessions a) i r f"
  by (simp add: rateSession_def Let_def sessions_updateUserStats split: option.splits)

lemma keeps_ratings_append: "keeps_ratings ss (ss @ ys)"
  by (induction ss) simp_all

lemma keeps_ratings_refl: "keeps_ratings ss ss"
  using keeps_ratings_append [of ss "[]"] by simp

lemma keeps_ratings_map:
  "(\<And>x. x \<in> set ss \<Longrightarrow> sid (f x) = sid x \<and>
      (ratingForMentor x \<noteq> None \<longrightarrow> ratingForMentor (f x) = ratingForMentor x) \<and>
      (ratingForMentee x \<noteq> None \<longrightarrow> ratingForMentee (f x) = ratingForMentee x)) \<Longrightarrow>
   keeps_ratings ss (map f ss)"
  by (induction ss) simp_all

lemma sessions_ok_same: "sessions a' = sessions a \<Longrightarrow> sessions_ok a \<Longrightarrow> sessions_ok a'"
  by (simp add: sessions_ok_def)

lemma ratings_valid_newSession: "ratings_valid (newSession tza cu q i d ns)"
  by (simp add: ratings_valid_def newSession_def)

lemma sid_newSession: "sid (newSession tza cu q i d ns) = ns"
  by (simp add: newSession_def)

lemma sessions_ok_map:
  assumes "sessions_ok a" and "sessions a' = map f (sessions a)"
    and "\<And>x. x \<in> set (sessions a) \<Longrightarrow> ratings_valid x \<Longrightarrow> sid (f x) = sid x \<and> ratings_valid (f x)"
  shows "sessions_ok a'"
proof -
  have v: "\<And>x. x \<in> set (sessions a) \<Longrightarrow> ratings_valid x"
    using assms(1) by (simp add: sessions_ok_def list_all_iff)
  have "map sid (map f (sessions a)) = map sid (sessions a)"
    unfolding map_map by (rule map_cong) (use assms(3) v in auto)
  then have "distinct (map sid (sessions a'))"
    using assms(1,2) by (simp only: sessions_ok_def)
  moreover have "list_all ratings_valid (sessions a')"
    using assms(2,3) v by (simp add: list_all_iff)
  ultimately show ?thesis
    by (simp only: sessions_ok_def)
qed

lemma same_sid:
  "sessions_ok a \<Longrightarrow> s \<in> set (sessions a) \<Longrightarrow> x \<in> set (sessions a) \<Longrightarrow> sid x = sid s \<Longrightarrow> x = s"
  by (auto simp: sessions_ok_def distinct_map inj_on_def)

lemma ui_step_sessions:
  assumes "ui_step a a'" and "sessions_ok a"
  shows "sessions_ok a' \<and> keeps_ratings (sessions a) (sessions a')"
  using assms
proof (cases rule: ui_step.cases)
  case (accept cu q newSid newNid tza dnow tnow)
  from sessions_acceptQuery [of tza a "qid q" dnow newSid newNid tnow]
  show ?thesis
  proof
    assume "sessions (snd (acceptQuery tza a (qid q) dnow newSid newNid tnow)) = sessions a"
    with accept(1) assms(2) show ?thesis
      by (simp add: sessions_ok_def keeps_ratings_refl)
  next
    assume "\<exists>cu' q'. sessions (snd (acceptQuery tza a (qid q) dnow newSid newNid tnow)) =
        sessions a @ [newSession tza cu' q' (qid q) dnow newSid]"
    then obtain cu' q' where "sessions a' = sessions a @ [newSession tza cu' q' (qid q) dnow newSid]"
      using accept(1) by auto
    with accept(6) assms(2) show ?thesis
      by (simp add: sessions_ok_def keeps_ratings_append ratings_valid_newSession sid_newSession)
  qed
next
  case (mark cu s asUser tnow didHappen)
  let ?f = "\<lambda>x. if sid x = sid s
                  then x\<lparr>sstatus := (if didHappen then ''Completed'' else ''No-show'')\<rparr> else x"
  have e: "sessions a' = map ?f (sessions a)"
    using mark(1) by (simp add: sessions_markSessionComplete)
  have "ratings_valid s"
    using assms(2) mark(3) by (simp add: sessions_ok_def list_all_iff)
  with mark(6) have unrated: "ratingForMentor s = None \<and> ratingForMentee s = None"
    by (cases "ratingForMentor s"; cases "ratingForMentee s") (simp_all add: ratings_valid_def)
  have f: "\<And>x. x \<in> set (sessions a) \<Longrightarrow> ratings_valid x \<Longrightarrow>
             sid (?f x) = sid x \<and> ratings_valid (?f x)"
  proof -
    fix x assume x: "x \<in> set (sessions a)" "ratings_valid x"
    show "sid (?f x) = sid x \<and> ratings_valid (?f x)"
    proof (cases "sid x = sid s")
      case True
      then have "x = s" using same_sid [OF assms(2) mark(3) x(1)] by simp
      with unrated show ?thesis by (simp add: ratings_valid_def)
    next
      case False
      with x show ?thesis by simp
    qed
  qed
  have "keeps_ratings (sessions a) (map ?f (sessions a))"
    by (rule keeps_ratings_map) simp
  with e sessions_ok_map [OF assms(2) e f] show ?thesis by simp
next
  case (rate cu s asUser r)
  let ?m = "asUser = ''mentee''"
  let ?f = "\<lambda>x. if sid x \<noteq> sid s then x
                  else if ?m then x\<lparr>ratingForMentor := Some r\<rparr>
                  else x\<lparr>ratingForMentee := Some r\<rparr>"
  have e: "sessions a' = map ?f (sessions a)"
    using rate(1) by (simp add: sessions_rateSession nextSessions_def)
  have r: "1 \<le> r \<and> r \<le> 5" using rate(6) by auto
  have target: "(?m \<longrightarrow> ratingForMentor s = None) \<and> (\<not> ?m \<longrightarrow> ratingForMentee s = None)"
    using rate(4) by auto
  have f: "\<And>x. x \<in> set (sessions a) \<Longrightarrow> ratings_valid x \<Longrightarrow>
             sid (?f x) = sid x \<and> ratings_valid (?f x)"
  proof -
    fix x assume x: "x \<in> set (sessions a)" "ratings_valid x"
    show "sid (?f x) = sid x \<and> ratings_valid (?f x)"
    proof (cases "sid x = sid s")
      case True
      then have "x = s" using same_sid [OF assms(2) rate(3) x(1)] by simp
      with x(2) r rate(5) show ?thesis
        by (simp add: ratings_valid_def split: option.splits)
    next
      case False
      with x show ?thesis by simp
    qed
  qed
  have "keeps_ratings (sessions a) (map ?f (sessions a))"
  proof (rule keeps_ratings_map)
    fix x assume x: "x \<in> set (sessions a)"
    show "sid (?f x) = sid x \<and>
      (ratingForMentor x \<noteq> None \<longrightarrow> ratingForMentor (?f x) = ratingForMentor x) \<and>
      (ratingForMentee x \<noteq> None \<longrightarrow> ratingForMentee (?f x) = ratingForMentee x)"
    proof (cases "sid x = sid s")
      case True
      then have "x = s" using same_sid [OF assms(2) rate(3) x] by simp
      with target show ?thesis by simp
    next
      case False
      then show ?thesis by simp
    qed
  qed
  with e sessions_ok_map [OF assms(2) e f] show ?thesis by simp
qed (simp_all add: sessions_ok_def keeps_ratings_refl sessions_handleSignup sessions_handleLogin
    sessions_handleLogout sessions_updateProfile sessions_createQuery sessions_toggleBlockUser)

lemma reachable_sessions_ok: "reachable a \<Longrightarrow> sessions_ok a"
proof (induction rule: reachable.induct)
  case start
  show ?case by (simp add: sessions_ok_def initial_app_def)
next
  case (step a a')
  then show ?case using ui_step_sessions by blast
qed

lemmas people = alice_def bob_def carol_def

lemma reachable_registered:
  "reachable (initial_app\<lparr>users := [alice, bob, carol]\<rparr>)"
proof -
  let ?a1 = "initial_app\<lparr>users := [alice], currentUserId := Some ''a1'', route := ''profile''\<rparr>"
  let ?a2 = "initial_app\<lparr>users := [alice]\<rparr>"
  let ?a3 = "initial_app\<lparr>users := [alice, bob], currentUserId := Some ''b2'', route := ''profile''\<rparr>"
  let ?a4 = "initial_app\<lparr>users := [alice, bob]\<rparr>"
  let ?a5 = "initial_app\<lparr>users := [alice, bob, carol], currentUserId := Some ''c3'',
               route := ''profile''\<rparr>"
  have "ui_step initial_app (snd (handleSignup initial_app ''alice@pccoepune.org'' ''pw1'' ''a1''))"
    by (rule ui_step.signup) (simp_all add: currentUser_def initial_app_def)
  moreover have "snd (handleSignup initial_app ''alice@pccoepune.org'' ''pw1'' ''a1'') = ?a1"
    by (simp add: handleSignup_def newUser_def nameDefault_def endsWith_def initial_app_def alice_def)
  ultimately have r1: "reachable ?a1"
    using reachable.step [OF reachable.start] by simp
  have "ui_step ?a1 (handleLogout ?a1)"
    by (rule ui_step.logout) (simp add: currentUser_def alice_def)
  moreover have "handleLogout ?a1 = ?a2"
    by (simp add: handleLogout_def initial_app_def)
  ultimately have r2: "reachable ?a2"
    using reachable.step [OF r1] by simp
  have "ui_step ?a2 (snd (handleSignup ?a2 ''bob@pccoepune.org'' ''pw2'' ''b2''))"
    by (rule ui_step.signup) (simp_all add: currentUser_def initial_app_def alice_def)
  moreover have "snd (handleSignup ?a2 ''bob@pccoepune.org'' ''pw2'' ''b2'') = ?a3"
    by (simp add: handleSignup_def newUser_def nameDefault_def endsWith_def initial_app_def people)
  ultimately have r3: "reachable ?a3"
    using reachable.step [OF r2] by simp
  have "ui_step ?a3 (handleLogout ?a3)"
    by (rule ui_step.logout) (simp add: currentUser_def people)
  moreover have "handleLogout ?a3 = ?a4"
    by (simp add: handleLogout_def initial_app_def)
  ultimately have r4: "reachable ?a4"
    using reachable.step [OF r3] by simp
  have "ui_step ?a4 (snd (handleSignup ?a4 ''carol@pccoepune.org'' ''pw3'' ''c3''))"
    by (rule ui_step.signup) (simp_all add: currentUser_def initial_app_def people)
  moreover have "snd (handleSignup ?a4 ''carol@pccoepune.org'' ''pw3'' ''c3'') = ?a5"
    by (simp add: handleSignup_def newUser_def nameDefault_def endsWith_def initial_app_def people)
  ultimately have r5: "reachable ?a5"
    using reachable.step [OF r4] by simp
  have "ui_step ?a5 (handleLogout ?a5)"
    by (rule ui_step.logout) (simp add: currentUser_def people)
  moreover have "handleLogout ?a5 = initial_app\<lparr>users := [alice, bob, carol]\<rparr>"
    by (simp add: handleLogout_def initial_app_def)
  ultimately show ?thesis
    using reachable.step [OF r5] by simp
qed

lemma reachable_app_open: "reachable app_open"
proof -
  let ?a0 = "initial_app\<lparr>users := [alice, bob, carol]\<rparr>"
  let ?a1 = "?a0\<lparr>currentUserId := Some ''a1'', route := ''profile''\<rparr>"
  let ?a2 = "?a1\<lparr>queries := [heaps]\<rparr>"
  let ?a3 = "?a0\<lparr>queries := [heaps]\<rparr>"
  let ?a4 = "?a3\<lparr>currentUserId := Some ''b2'', route := ''profile''\<rparr>"
  have "ui_step ?a0 (snd (handleLogin ?a0 ''alice@pccoepune.org'' ''pw1''))"
    by (rule ui_step.login) (simp add: currentUser_def initial_app_def)
  moreover have "snd (handleLogin ?a0 ''alice@pccoepune.org'' ''pw1'') = ?a1"
    by (simp add: handleLogin_def initial_app_def people)
  ultimately have r1: "reachable ?a1"
    using reachable.step [OF reachable_registered] by simp
  have c1: "currentUser ?a1 = Some alice"
    by (simp add: currentUser_def initial_app_def people)
  have "ui_step ?a1 (createQuery ?a1 heaps_data ''q1'' 1000)"
  proof (rule ui_step.post)
    show "currentUser ?a1 \<noteq> None" by (simp add: c1)
    show "''q1'' \<notin> qid ` set (queries ?a1)" by (simp add: initial_app_def)
  qed
  moreover have "createQuery ?a1 heaps_data ''q1'' 1000 = ?a2"
    by (simp add: createQuery_def c1) (simp add: heaps_data_def heaps_def alice_def initial_app_def)
  ultimately have r2: "reachable ?a2"
    using reachable.step [OF r1] by simp
  have "ui_step ?a2 (handleLogout ?a2)"
    by (rule ui_step.logout) (simp add: currentUser_def initial_app_def people)
  moreover have "handleLogout ?a2 = ?a3"
    by (simp add: handleLogout_def initial_app_def)
  ultimately have r3: "reachable ?a3"
    using reachable.step [OF r2] by simp
  have "ui_step ?a3 (snd (handleLogin ?a3 ''bob@pccoepune.org'' ''pw2''))"
    by (rule ui_step.login) (simp add: currentUser_def initial_app_def)
  moreover have "snd (handleLogin ?a3 ''bob@pccoepune.org'' ''pw2'') = ?a4"
    by (simp add: handleLogin_def initial_app_def people)
  ultimately have r4: "reachable ?a4"
    using reachable.step [OF r3] by simp
  have "ui_step ?a4 (?a4\<lparr>route := ''home'', authMode := ''signup''\<rparr>)"
    by (rule ui_step.navigate)
  moreover have "?a4\<lparr>route := ''home'', authMode := ''signup''\<rparr> = app_open"
    by (simp add: initial_app_def app_open_def)
  ultimately show ?thesis
    using reachable.step [OF r4] by simp
qed

lemma reachable_app_accepted: "reachable app_accepted"
proof -
  have "ui_step app_open (snd (acceptQuery zone_utc app_open (qid heaps) 5000 ''s1'' ''n1'' 5001))"
  proof (rule ui_step.accept)
    show "currentUser app_open = Some bob" by (rule currentUser_app_open)
    show "heaps \<in> set (queries app_open)" by (simp add: app_open_def)
    show "askerId heaps \<noteq> uid bob" by (simp add: heaps_def bob_def)
    show "qstatus heaps = ''Open''" by (simp add: heaps_def)
    show "''s1'' \<notin> sid ` set (sessions app_open)" by (simp add: app_open_def)
    show "''n1'' \<notin> nid ` set (notifications app_open)" by (simp add: app_open_def)
  qed
  moreover have "snd (acceptQuery zone_utc app_open (qid heaps) 5000 ''s1'' ''n1'' 5001) = app_accepted"
    by (simp add: acceptQuery_def currentUser_app_open)
      (simp add: app_open_def app_accepted_def heaps_def bob_def newSession_def
        newNotification_def heaps_session_def heaps_notification_def setHours_next_hour
        zone_utc_def)
  ultimately show ?thesis
    using reachable.step [OF reachable_app_open] by simp
qed

lemma reachable_app_completed: "reachable app_completed"
proof -
  let ?done = "[heaps_session\<lparr>sstatus := ''Completed''\<rparr>]"
  let ?a1 = "app_accepted\<lparr>sessions := ?done\<rparr>"
  let ?a2 = "?a1\<lparr>currentUserId := None, route := ''landing''\<rparr>"
  let ?a3 = "?a1\<lparr>currentUserId := Some ''a1'', route := ''profile''\<rparr>"
  have "ui_step app_accepted (markSessionComplete app_accepted (sid heaps_session) ''mentor'' True)"
  proof (rule ui_step.mark [where tnow = 4000000])
    show "currentUser app_accepted = Some bob"
      by (simp add: currentUser_def app_accepted_def people)
    show "heaps_session \<in> set (sessions app_accepted)" by (simp add: app_accepted_def)
    show "''mentor'' = ''mentor'' \<and> mentorId heaps_session = uid bob \<or>
          ''mentor'' = ''mentee'' \<and> menteeId heaps_session = uid bob"
      by (simp add: heaps_session_def bob_def)
    show "\<not> (4000000 < dateTime heaps_session \<and> sstatus heaps_session = ''Confirmed'')"
      by (simp add: heaps_session_def)
    show "sstatus heaps_session \<noteq> ''Completed''" by (simp add: heaps_session_def)
  qed
  moreover have "markSessionComplete app_accepted (sid heaps_session) ''mentor'' True = ?a1"
    by (simp add: markSessionComplete_def app_accepted_def)
  ultimately have r1: "reachable ?a1"
    using reachable.step [OF reachable_app_accepted] by simp
  have "ui_step ?a1 (handleLogout ?a1)"
    by (rule ui_step.logout) (simp add: currentUser_def app_accepted_def people)
  moreover have "handleLogout ?a1 = ?a2"
    by (simp add: handleLogout_def)
  ultimately have r2: "reachable ?a2"
    using reachable.step [OF r1] by simp
  have "ui_step ?a2 (snd (handleLogin ?a2 ''alice@pccoepune.org'' ''pw1''))"
    by (rule ui_step.login) (simp add: currentUser_def)
  moreover have "snd (handleLogin ?a2 ''alice@pccoepune.org'' ''pw1'') = ?a3"
    by (simp add: handleLogin_def app_accepted_def people)
  ultimately have r3: "reachable ?a3"
    using reachable.step [OF r2] by simp
  have "ui_step ?a3 (?a3\<lparr>route := ''sessions'', authMode := ''signup''\<rparr>)"
    by (rule ui_step.navigate)
  moreover have "?a3\<lparr>route := ''sessions'', authMode := ''signup''\<rparr> = app_completed"
    by (simp add: app_accepted_def app_completed_def)
  ultimately show ?thesis
    using reachable.step [OF r3] by simp
qed

lemma ui_step_rate_mentor:
  "ui_step app_completed (rateSession app_completed ''s1'' 5 True)"
proof -
  let ?s = "heaps_session\<lparr>sstatus := ''Completed''\<rparr>"
  have "ui_step app_completed (rateSession app_completed (sid ?s) 5 (''mentee'' = ''mentee''))"
  proof (rule ui_step.rate)
    show "currentUser app_completed = Some alice"
      by (simp add: currentUser_def app_completed_def alice_def)
    show "?s \<in> set (sessions app_completed)" by (simp add: app_completed_def)
    show "''mentee'' = ''mentor'' \<and> mentorId ?s = uid alice \<and> ratingForMentee ?s = None \<or>
          ''mentee'' = ''mentee'' \<and> menteeId ?s = uid alice \<and> ratingForMentor ?s = None"
      by (simp add: heaps_session_def alice_def)
    show "sstatus ?s = ''Completed''" by simp
    show "(5::int) \<in> set [1, 2, 3, 4, 5]" by simp
  qed
  then show ?thesis by (simp add: heaps_session_def)
qed

lemma sessions_rated:
  "sessions (rateSession app_completed ''s1'' 5 True) =
     [heaps_session\<lparr>sstatus := ''Completed'', ratingForMentor := Some 5\<rparr>]"
  by (simp add: sessions_rateSession nextSessions_def app_completed_def heaps_session_def)

text \<open>
  Claim C7, as stated, at the inputs where it fails. \<open>rateSession\<close> called on a session whose
  rating for the mentor is already 5 writes 3 over it, and called on a Confirmed session with
  the value 9 it writes 9: the handler has no guard of its own.
\<close>

theorem rateSession_overwrites_counterexample:
  "map ratingForMentor (sessions (rateSession app_completed ''s1'' 5 True)) = [Some 5] \<and>
   map ratingForMentor
     (sessions (rateSession (rateSession app_completed ''s1'' 5 True) ''s1'' 3 True)) = [Some 3] \<and>
   map sstatus (sessions app_accepted) = [''Confirmed''] \<and>
   map ratingForMentor (sessions (rateSession app_accepted ''s1'' 9 True)) = [Some 9]"
  by (simp add: sessions_rateSession nextSessions_def app_completed_def app_accepted_def
      heaps_session_def)

text \<open>
  Claim C7, amended. In every snapshot the page can get to through its controls (with
  identifiers that are fresh), the sessions have distinct identifiers, each of the two
  ratings of each session is unset or an integer from 1 to 5, a rating is set only on a
  Completed session, and no further event of the page changes a rating that is set: each is
  assigned at most once.
\<close>

theorem ui_ratings_invariant:
  "reachable a \<Longrightarrow>
     distinct (map sid (sessions a)) \<and>
     (\<forall>s \<in> set (sessions a).
        (\<forall>r. ratingForMentor s = Some r \<longrightarrow> 1 \<le> r \<and> r \<le> 5 \<and> sstatus s = ''Completed'') \<and>
        (\<forall>r. ratingForMentee s = Some r \<longrightarrow> 1 \<le> r \<and> r \<le> 5 \<and> sstatus s = ''Completed'')) \<and>
     (\<forall>a'. ui_step a a' \<longrightarrow> keeps_ratings (sessions a) (sessions a'))"
proof -
  assume "reachable a"
  then have ok: "sessions_ok a" by (rule reachable_sessions_ok)
  then have "\<forall>s \<in> set (sessions a). ratings_valid s"
    by (simp add: sessions_ok_def list_all_iff)
  then have "\<forall>s \<in> set (sessions a).
        (\<forall>r. ratingForMentor s = Some r \<longrightarrow> 1 \<le> r \<and> r \<le> 5 \<and> sstatus s = ''Completed'') \<and>
        (\<forall>r. ratingForMentee s = Some r \<longrightarrow> 1 \<le> r \<and> r \<le> 5 \<and> sstatus s = ''Completed'')"
    by (auto simp: ratings_valid_def split: option.splits)
  moreover have "\<forall>a'. ui_step a a' \<longrightarrow> keeps_ratings (sessions a) (sessions a')"
    using ok ui_step_sessions by blast
  ultimately show ?thesis
    using ok by (simp add: sessions_ok_def)
qed

theorem ui_ratings_invariant_witness:
  "reachable (rateSession app_completed ''s1'' 5 True) \<and>
   ui_step app_completed (rateSession app_completed ''s1'' 5 True) \<and>
   map sid (sessions (rateSession app_completed ''s1'' 5 True)) = [''s1''] \<and>
   map sstatus (sessions (rateSession app_completed ''s1'' 5 True)) = [''Completed''] \<and>
   map ratingForMentor (sessions (rateSession app_completed ''s1'' 5 True)) = [Some 5] \<and>
   keeps_ratings (sessions app_completed) (sessions (rateSession app_completed ''s1'' 5 True))"
proof -
  have r: "reachable (rateSession app_completed ''s1'' 5 True)"
    using reachable.step [OF reachable_app_completed ui_step_rate_mentor] .
  have "keeps_ratings (sessions app_completed) (sessions (rateSession app_completed ''s1'' 5 True))"
    using ui_ratings_invariant [OF reachable_app_completed] ui_step_rate_mentor by blast
  then show ?thesis
    using r ui_step_rate_mentor ui_ratings_invariant [OF r]
    by (simp add: sessions_rated heaps_session_def)
qed

end
